theory Spec2Isabelle
  imports Complex_Main "HOL-Library.Sublist" "HOL-Library.Countable"
begin

section \<open>Python string operations used by the proxy\<close>

text \<open>
  Python strings are modelled as \<open>string\<close> (character lists). The operations below are
  the ones the source calls: \<open>sub in s\<close>, \<open>s.replace(old, new)\<close>, \<open>s.rstrip('s')\<close>,
  \<open>s.endswith(suf)\<close> and the decimal formatting of an integer inside an f-string.
\<close>

fun str_in :: "string \<Rightarrow> string \<Rightarrow> bool" where
  "str_in sub [] = (sub = [])"
| "str_in sub (c # cs) = (prefix sub (c # cs) \<or> str_in sub cs)"

function replace_from :: "string \<Rightarrow> string \<Rightarrow> string \<Rightarrow> string" where
  "replace_from old new [] = []"
| "replace_from old new (c # cs) =
     (if old \<noteq> [] \<and> prefix old (c # cs)
      then new @ replace_from old new (drop (length old) (c # cs))
      else c # replace_from old new cs)"
  by pat_completeness auto
termination
  by (relation "measure (\<lambda>(old, new, s). length s)") (auto simp: neq_Nil_conv)

definition py_replace :: "string \<Rightarrow> string \<Rightarrow> string \<Rightarrow> string" where
  "py_replace old new s =
     (if old = [] then new @ concat (map (\<lambda>c. c # new) s) else replace_from old new s)"

definition rstrip :: "char \<Rightarrow> string \<Rightarrow> string" where
  "rstrip ch s = rev (dropWhile (\<lambda>c. c = ch) (rev s))"

definition endswith :: "string \<Rightarrow> string \<Rightarrow> bool" where
  "endswith s suf = suffix suf s"

definition digit_char :: "nat \<Rightarrow> char" where
  "digit_char d = ''0123456789'' ! d"

function digits :: "nat \<Rightarrow> string" where
  "digits n = (if n < 10 then [digit_char n] else digits (n div 10) @ [digit_char (n mod 10)])"
  by pat_completeness auto
termination
  by (relation "measure id") auto

declare digits.simps [simp del]

definition str_int :: "int \<Rightarrow> string" where
  "str_int i = (if i < 0 then CHR ''-'' # digits (nat (- i)) else digits (nat i))"

text \<open>
  \<open>str.replace\<close> is read below through the decomposition of a string around the
  occurrences of a token. \<open>str_join\<close> is Python's \<open>sep.join(parts)\<close>; \<open>py_split\<close> is
  \<open>s.split(old)\<close>, which cuts at the occurrences of \<open>old\<close> found from left to right
  without overlap; \<open>clean_parts old parts\<close> says that \<open>parts\<close> is such a cut of
  \<open>str_join old parts\<close>: \<open>old\<close> occurs in no part, and no occurrence starts in a part and
  runs into the separator that follows it. \<open>inert old new s\<close> says that replacing \<open>old\<close>
  by \<open>new\<close> has nothing to change in \<open>s\<close>: the two tokens are equal, or \<open>old\<close> does not
  occur.
\<close>

fun str_join :: "string \<Rightarrow> string list \<Rightarrow> string" where
  "str_join sep [] = []"
| "str_join sep [p] = p"
| "str_join sep (p # q # ps) = p @ sep @ str_join sep (q # ps)"

fun clean_parts :: "string \<Rightarrow> string list \<Rightarrow> bool" where
  "clean_parts old [] = True"
| "clean_parts old [p] = (\<not> str_in old p)"
| "clean_parts old (p # q # ps) = (\<not> str_in old (p @ butlast old) \<and> clean_parts old (q # ps))"

function py_split :: "string \<Rightarrow> string \<Rightarrow> string list" where
  "py_split old [] = [[]]"
| "py_split old (c # cs) =
     (if old \<noteq> [] \<and> prefix old (c # cs)
      then [] # py_split old (drop (length old) (c # cs))
      else (case py_split old cs of
              [] \<Rightarrow> [[c]]
            | p # ps \<Rightarrow> (c # p) # ps))"
  by pat_completeness auto
termination
  by (relation "measure (\<lambda>(old, s). length s)") (auto simp: neq_Nil_conv)

definition inert :: "string \<Rightarrow> string \<Rightarrow> string \<Rightarrow> bool" where
  "inert old new s = (old = new \<or> \<not> str_in old s)"

section \<open>Address rewriter and camera forwarder (onvif_proxy.py)\<close>

text \<open>
  \<open>ONVIFServiceProxy\<close> keeps the four strings and numbers of the proxy identity. The
  credentials only feed the Digest authentication of the outbound request and are left
  out of the record.
\<close>

record service_proxy =
  camera_ip :: string
  camera_port :: int
  proxy_host :: string
  proxy_port :: int

definition rewrite_request :: "service_proxy \<Rightarrow> string \<Rightarrow> string" where
  "rewrite_request px soap_body =
     (let b1 = py_replace (proxy_host px) (camera_ip px) soap_body;
          b2 = py_replace ('':'' @ str_int (proxy_port px) @ ''/'')
                          ('':'' @ str_int (camera_port px) @ ''/'') b1;
          b3 = py_replace ('':'' @ str_int (proxy_port px) @ ''<'')
                          ('':'' @ str_int (camera_port px) @ ''<'') b2
      in b3)"

definition rewrite_response :: "service_proxy \<Rightarrow> string \<Rightarrow> string" where
  "rewrite_response px soap_response =
     (let r1 = py_replace (camera_ip px) (proxy_host px) soap_response;
          r2 = py_replace ('':'' @ str_int (camera_port px) @ ''/'')
                          ('':'' @ str_int (proxy_port px) @ ''/'') r1;
          r3 = py_replace ('':'' @ str_int (camera_port px) @ ''<'')
                          ('':'' @ str_int (proxy_port px) @ ''<'') r2
      in r3)"

text \<open>
  The two port tokens of the rewriter, \<open>f":{port}/"\<close> and \<open>f":{port}<"\<close>, differ in their
  last character only.
\<close>

definition port_token :: "int \<Rightarrow> char \<Rightarrow> string" where
  "port_token n c = '':'' @ str_int n @ [c]"

definition camera_base :: "service_proxy \<Rightarrow> string" where
  "camera_base px = ''http://'' @ camera_ip px @ '':'' @ str_int (camera_port px) @ ''/onvif/''"

definition service_urls :: "service_proxy \<Rightarrow> string \<Rightarrow> string option" where
  "service_urls px service =
     (if service \<in> set [''device_service'', ''media_service'', ''ptz_service'',
                          ''imaging_service'', ''events_service'']
      then Some (camera_base px @ service) else None)"

definition service_url :: "service_proxy \<Rightarrow> string \<Rightarrow> string" where
  "service_url px service =
     (case service_urls px service of
        Some url \<Rightarrow> url
      | None \<Rightarrow> camera_base px @ service)"

text \<open>The three fault envelopes, line by line as the source writes them.\<close>

definition timeout_fault :: string where
  \<open>timeout_fault =
     ''<?xml version="1.0" encoding="UTF-8"?>\<newline>'' @
     ''<SOAP-ENV:Envelope xmlns:SOAP-ENV="http://www.w3.org/2003/05/soap-envelope">\<newline>'' @
     ''    <SOAP-ENV:Body>\<newline>'' @
     ''        <SOAP-ENV:Fault>\<newline>'' @
     ''            <SOAP-ENV:Code>\<newline>'' @
     ''                <SOAP-ENV:Value>SOAP-ENV:Receiver</SOAP-ENV:Value>\<newline>'' @
     ''            </SOAP-ENV:Code>\<newline>'' @
     ''            <SOAP-ENV:Reason>\<newline>'' @
     ''                <SOAP-ENV:Text xml:lang="en">Request timeout</SOAP-ENV:Text>\<newline>'' @
     ''            </SOAP-ENV:Reason>\<newline>'' @
     ''        </SOAP-ENV:Fault>\<newline>'' @
     ''    </SOAP-ENV:Body>\<newline>'' @
     ''</SOAP-ENV:Envelope>''\<close>

definition connection_fault :: string where
  \<open>connection_fault =
     ''<?xml version="1.0" encoding="UTF-8"?>\<newline>'' @
     ''<SOAP-ENV:Envelope xmlns:SOAP-ENV="http://www.w3.org/2003/05/soap-envelope">\<newline>'' @
     ''    <SOAP-ENV:Body>\<newline>'' @
     ''        <SOAP-ENV:Fault>\<newline>'' @
     ''            <SOAP-ENV:Code>\<newline>'' @
     ''                <SOAP-ENV:Value>SOAP-ENV:Receiver</SOAP-ENV:Value>\<newline>'' @
     ''            </SOAP-ENV:Code>\<newline>'' @
     ''            <SOAP-ENV:Reason>\<newline>'' @
     ''                <SOAP-ENV:Text xml:lang="en">Connection error to camera</SOAP-ENV:Text>\<newline>'' @
     ''            </SOAP-ENV:Reason>\<newline>'' @
     ''        </SOAP-ENV:Fault>\<newline>'' @
     ''    </SOAP-ENV:Body>\<newline>'' @
     ''</SOAP-ENV:Envelope>''\<close>

definition generic_fault :: "string \<Rightarrow> string" where
  \<open>generic_fault message =
     ''<?xml version="1.0" encoding="UTF-8"?>\<newline>'' @
     ''<SOAP-ENV:Envelope xmlns:SOAP-ENV="http://www.w3.org/2003/05/soap-envelope">\<newline>'' @
     ''    <SOAP-ENV:Body>\<newline>'' @
     ''        <SOAP-ENV:Fault>\<newline>'' @
     ''            <SOAP-ENV:Code>\<newline>'' @
     ''                <SOAP-ENV:Value>SOAP-ENV:Receiver</SOAP-ENV:Value>\<newline>'' @
     ''            </SOAP-ENV:Code>\<newline>'' @
     ''            <SOAP-ENV:Reason>\<newline>'' @
     ''                <SOAP-ENV:Text xml:lang="en">'' @ message @ ''</SOAP-ENV:Text>\<newline>'' @
     ''            </SOAP-ENV:Reason>\<newline>'' @
     ''        </SOAP-ENV:Fault>\<newline>'' @
     ''    </SOAP-ENV:Body>\<newline>'' @
     ''</SOAP-ENV:Envelope>''\<close>

text \<open>
  The camera is outside the program. What \<open>requests.post\<close> does is one of four things:
  it returns a response (text and status code), or it raises \<open>Timeout\<close>, or
  \<open>ConnectionError\<close>, or some other exception with a message. The \<open>except\<close> clauses
  are tried in the source's order, so an exception that is both a timeout and a
  connection error (\<open>ConnectTimeout\<close>) counts as \<open>Timeout\<close>.
\<close>

datatype upstream =
    Responded string int
  | TimedOut
  | ConnectionFailed string
  | OtherException string

type_synonym http_post = "string \<Rightarrow> string \<Rightarrow> upstream"

definition forward_request :: "service_proxy \<Rightarrow> http_post \<Rightarrow> string \<Rightarrow> string \<Rightarrow> string \<times> int" where
  "forward_request px post service soap_body =
     (let url = service_url px service;
          rewritten_body = rewrite_request px soap_body
      in case post url rewritten_body of
           Responded text status_code \<Rightarrow> (rewrite_response px text, status_code)
         | TimedOut \<Rightarrow> (timeout_fault, 500)
         | ConnectionFailed e \<Rightarrow> (connection_fault, 500)
         | OtherException e \<Rightarrow> (generic_fault e, 500))"

text \<open>
  Reading a fault back: the text that follows the first occurrence of an opening tag,
  up to the next \<open><\<close>. These two readers are not part of the program; they state
  what a client sees in \<open>Code/Value\<close> and \<open>Reason/Text\<close>.
\<close>

fun after_first :: "string \<Rightarrow> string \<Rightarrow> string option" where
  "after_first m [] = (if m = [] then Some [] else None)"
| "after_first m (c # cs) =
     (if prefix m (c # cs) then Some (drop (length m) (c # cs)) else after_first m cs)"

definition element_text :: "string \<Rightarrow> string \<Rightarrow> string option" where
  "element_text opening s = map_option (takeWhile (\<lambda>c. c \<noteq> CHR ''<'')) (after_first opening s)"

definition fault_code_value :: "string \<Rightarrow> string option" where
  "fault_code_value s = element_text ''<SOAP-ENV:Value>'' s"

definition fault_reason_text :: "string \<Rightarrow> string option" where
  \<open>fault_reason_text s = element_text ''<SOAP-ENV:Text xml:lang="en">'' s\<close>

section \<open>Service-name normalisation of the request router (proxy_server.py)\<close>

definition normalize_service :: "string \<Rightarrow> string" where
  "normalize_service service =
     (let normalized_service =
            (if \<not> endswith service ''_service''
             then rstrip (CHR ''s'') service @ ''_service'' else service)
      in if service \<in> set [''ptz_services'', ''ptz_service''] then ''ptz_service''
         else if service \<in> set [''media_services'', ''media_service''] then ''media_service''
         else if service \<in> set [''device_services'', ''device_service''] then ''device_service''
         else if service \<in> set [''event_services'', ''event_service''] then ''events_service''
         else normalized_service)"

section \<open>XML trees as the lxml API presents them\<close>

text \<open>
  An element has a tag in Clark notation (\<open>{namespace}local\<close>), attributes, an optional
  text, its children in document order and an optional tail. Comments and processing
  instructions are not modelled. Parsing and serialising are the library's
  (\<open>etree.fromstring\<close>, \<open>etree.tostring\<close>) and are parameters of the functions that
  use them; a parse that raises is \<open>None\<close>.
\<close>

datatype xml =
  Element (tag: string) (attrib: "(string \<times> string) list") (elem_text: "string option")
          (children: "xml list") (tail: "string option")

type_synonym fromstring = "string \<Rightarrow> xml option"
type_synonym tostring = "xml \<Rightarrow> string"

fun iter :: "xml \<Rightarrow> xml list" where
  "iter (Element tg ats tx ch ta) = Element tg ats tx ch ta # concat (map iter ch)"

definition descendants :: "xml \<Rightarrow> xml list" where
  "descendants e = concat (map iter (children e))"

text \<open>\<open>e.find('.//T')\<close>, \<open>e.find('T')\<close>, \<open>e.findall('T')\<close> and \<open>e.get(k)\<close>.\<close>

definition find_path :: "xml \<Rightarrow> string \<Rightarrow> xml option" where
  "find_path e t = find (\<lambda>d. tag d = t) (descendants e)"

definition find_child :: "xml \<Rightarrow> string \<Rightarrow> xml option" where
  "find_child e t = find (\<lambda>c. tag c = t) (children e)"

definition findall :: "xml \<Rightarrow> string \<Rightarrow> xml list" where
  "findall e t = filter (\<lambda>c. tag c = t) (children e)"

definition get_attr :: "xml \<Rightarrow> string \<Rightarrow> string option" where
  "get_attr e k = map_of (attrib e) k"

definition localname :: "string \<Rightarrow> string" where
  "localname tg =
     (case tg of
        [] \<Rightarrow> []
      | c # rest \<Rightarrow> if c = CHR ''{'' then tl (dropWhile (\<lambda>d. d \<noteq> CHR ''}'') rest) else tg)"

section \<open>SOAP codec (soap_handler.py)\<close>

definition ns_soap12 :: string where
  "ns_soap12 = ''http://www.w3.org/2003/05/soap-envelope''"

definition ns_soap11 :: string where
  "ns_soap11 = ''http://schemas.xmlsoap.org/soap/envelope/''"

definition ns_tptz :: string where
  "ns_tptz = ''http://www.onvif.org/ver20/ptz/wsdl''"

definition ns_tt :: string where
  "ns_tt = ''http://www.onvif.org/ver10/schema''"

definition NAMESPACES :: "string \<Rightarrow> string option" where
  "NAMESPACES key =
     (if key = ''soap'' then Some ns_soap12
      else if key = ''soap12'' then Some ns_soap12
      else if key = ''wsdl'' then Some ''http://schemas.xmlsoap.org/wsdl/''
      else if key = ''tds'' then Some ''http://www.onvif.org/ver10/device/wsdl''
      else if key = ''trt'' then Some ''http://www.onvif.org/ver10/media/wsdl''
      else if key = ''tptz'' then Some ns_tptz
      else if key = ''tt'' then Some ns_tt
      else if key = ''ter'' then Some ''http://www.onvif.org/ver10/error''
      else None)"

definition clark :: "string \<Rightarrow> string \<Rightarrow> string" where
  "clark ns name = ''{'' @ ns @ ''}'' @ name"

text \<open>
  \<open>parse_soap_request\<close> returns the pair (operation, xroot); the \<open>except\<close> branch
  returns (None, None).
\<close>

definition parse_soap_request :: "fromstring \<Rightarrow> string \<Rightarrow> string option \<times> xml option" where
  "parse_soap_request parse soap_body =
     (case parse soap_body of
        None \<Rightarrow> (None, None)
      | Some xroot \<Rightarrow>
          (let body = (case find_path xroot (clark ns_soap12 ''Body'') of
                         Some b \<Rightarrow> Some b
                       | None \<Rightarrow> find_path xroot (clark ns_soap11 ''Body''))
           in case body of
                Some b \<Rightarrow>
                  (case children b of
                     operation_elem # _ \<Rightarrow> (Some (localname (tag operation_elem)), Some xroot)
                   | [] \<Rightarrow> (None, Some xroot))
              | None \<Rightarrow> (None, Some xroot)))"

definition find_element_by_localname :: "xml \<Rightarrow> string \<Rightarrow> xml option" where
  "find_element_by_localname element name =
     find (\<lambda>elem. endswith (tag elem) (CHR ''}'' # name) \<or> tag elem = name) (iter element)"

text \<open>
  \<open>extract_text\<close> is only called with the path \<open>.//tptz:<name>\<close>; the model takes
  the name. The tag tried second is what follows the last colon of the path.
\<close>

definition extract_text :: "xml \<Rightarrow> string \<Rightarrow> string option" where
  "extract_text element name =
     (case find_path element (clark ns_tptz name) of
        Some found \<Rightarrow> elem_text found
      | None \<Rightarrow>
          (case find_element_by_localname element name of
             Some found \<Rightarrow> elem_text found
           | None \<Rightarrow> None))"

definition truthy_str :: "string option \<Rightarrow> bool" where
  "truthy_str s = (s \<noteq> None \<and> s \<noteq> Some [])"

definition parse_profile_token :: "xml \<Rightarrow> string option" where
  "parse_profile_token xroot =
     (let profile_token = extract_text xroot ''ProfileToken''
      in if \<not> truthy_str profile_token
         then (case find_element_by_localname xroot ''ProfileToken'' of
                 Some elem \<Rightarrow> elem_text elem
               | None \<Rightarrow> None)
         else profile_token)"

text \<open>
  The parsed vectors. The source keeps them as dictionaries
  \<open>{'PanTilt': {'x', 'y', 'space'}, 'Zoom': {'x', 'space'}}\<close>; no function reads
  \<open>space\<close>, and the model leaves it out. \<open>float\<close> is Python's; where it rejects its
  argument it raises \<open>ValueError\<close>, here \<open>Inl\<close> with the message.
\<close>

record vector =
  PanTilt :: "(real \<times> real) option"
  Zoom :: "real option"

type_synonym pyfloat = "string \<Rightarrow> string + real"

definition float_attr :: "pyfloat \<Rightarrow> xml \<Rightarrow> string \<Rightarrow> string + real" where
  "float_attr pyfloat e k = (case get_attr e k of None \<Rightarrow> Inr 0 | Some v \<Rightarrow> pyfloat v)"

definition parse_pan_tilt :: "pyfloat \<Rightarrow> xml option \<Rightarrow> string + (real \<times> real) option" where
  "parse_pan_tilt pyfloat pan_tilt =
     (case pan_tilt of
        None \<Rightarrow> Inr None
      | Some e \<Rightarrow>
          (case float_attr pyfloat e ''x'' of
             Inl err \<Rightarrow> Inl err
           | Inr vx \<Rightarrow>
               (case float_attr pyfloat e ''y'' of
                  Inl err \<Rightarrow> Inl err
                | Inr vy \<Rightarrow> Inr (Some (vx, vy)))))"

definition parse_zoom :: "pyfloat \<Rightarrow> xml option \<Rightarrow> string + real option" where
  "parse_zoom pyfloat zoom =
     (case zoom of
        None \<Rightarrow> Inr None
      | Some e \<Rightarrow>
          (case float_attr pyfloat e ''x'' of
             Inl err \<Rightarrow> Inl err
           | Inr vx \<Rightarrow> Inr (Some vx)))"

definition parse_vector :: "pyfloat \<Rightarrow> xml option \<Rightarrow> xml option \<Rightarrow> string + vector" where
  "parse_vector pyfloat pan_tilt zoom =
     (case parse_pan_tilt pyfloat pan_tilt of
        Inl err \<Rightarrow> Inl err
      | Inr pt \<Rightarrow>
          (case parse_zoom pyfloat zoom of
             Inl err \<Rightarrow> Inl err
           | Inr z \<Rightarrow> Inr \<lparr>PanTilt = pt, Zoom = z\<rparr>))"

record move_params =
  ProfileToken :: "string option"
  Velocity :: vector
  Timeout :: "real option"

record relative_params =
  rel_ProfileToken :: "string option"
  Translation :: vector

record absolute_params =
  abs_ProfileToken :: "string option"
  Position :: vector

record stop_params =
  stop_ProfileToken :: "string option"
  stop_PanTilt :: bool
  stop_Zoom :: bool

text \<open>
  The timeout text is matched with \<open>re.search(r'PT(\d+(?:\.\d+)?)S', text)\<close> and the
  group converted with \<open>float\<close>; the pair is the parameter \<open>seconds\<close>, \<open>None\<close>
  when nothing matches.
\<close>

definition parse_ptz_continuous_move ::
    "pyfloat \<Rightarrow> (string \<Rightarrow> real option) \<Rightarrow> xml \<Rightarrow> string + move_params" where
  "parse_ptz_continuous_move pyfloat seconds xroot =
     (let profile_token = parse_profile_token xroot
      in case parse_vector pyfloat (find_element_by_localname xroot ''PanTilt'')
                                   (find_element_by_localname xroot ''Zoom'') of
           Inl err \<Rightarrow> Inl err
         | Inr velocity \<Rightarrow>
             (let timeout =
                    (case find_element_by_localname xroot ''Timeout'' of
                       None \<Rightarrow> None
                     | Some timeout_elem \<Rightarrow>
                         if truthy_str (elem_text timeout_elem)
                         then seconds (the (elem_text timeout_elem)) else None)
              in Inr \<lparr>ProfileToken = profile_token, Velocity = velocity, Timeout = timeout\<rparr>))"

definition parse_container :: "pyfloat \<Rightarrow> xml \<Rightarrow> string \<Rightarrow> string + vector" where
  "parse_container pyfloat xroot name =
     (case find_element_by_localname xroot name of
        None \<Rightarrow> Inr \<lparr>PanTilt = None, Zoom = None\<rparr>
      | Some container \<Rightarrow>
          parse_vector pyfloat (find_element_by_localname container ''PanTilt'')
                               (find_element_by_localname container ''Zoom''))"

definition parse_ptz_relative_move :: "pyfloat \<Rightarrow> xml \<Rightarrow> string + relative_params" where
  "parse_ptz_relative_move pyfloat xroot =
     (let profile_token = parse_profile_token xroot
      in case parse_container pyfloat xroot ''Translation'' of
           Inl err \<Rightarrow> Inl err
         | Inr translation \<Rightarrow>
             Inr \<lparr>rel_ProfileToken = profile_token, Translation = translation\<rparr>)"

definition parse_ptz_absolute_move :: "pyfloat \<Rightarrow> xml \<Rightarrow> string + absolute_params" where
  "parse_ptz_absolute_move pyfloat xroot =
     (let profile_token = parse_profile_token xroot
      in case parse_container pyfloat xroot ''Position'' of
           Inl err \<Rightarrow> Inl err
         | Inr position \<Rightarrow>
             Inr \<lparr>abs_ProfileToken = profile_token, Position = position\<rparr>)"

definition ascii_lower :: "char \<Rightarrow> char" where
  "ascii_lower c =
     (let n = (of_char c :: nat) in if 65 \<le> n \<and> n \<le> 90 then char_of (n + 32) else c)"

definition stop_flag :: "string option \<Rightarrow> bool" where
  "stop_flag txt =
     (if truthy_str txt then map ascii_lower (the txt) = ''true'' else True)"

definition parse_ptz_stop :: "xml \<Rightarrow> stop_params" where
  "parse_ptz_stop xroot =
     \<lparr>stop_ProfileToken = parse_profile_token xroot,
      stop_PanTilt = stop_flag (extract_text xroot ''PanTilt''),
      stop_Zoom = stop_flag (extract_text xroot ''Zoom'')\<rparr>"

definition build_simple_response :: "string \<Rightarrow> string \<Rightarrow> string" where
  \<open>build_simple_response operation namespace =
     (let ns_url = (case NAMESPACES namespace of Some u \<Rightarrow> u | None \<Rightarrow> ns_tptz)
      in ''<?xml version="1.0" encoding="UTF-8"?>\<newline>'' @
         ''<SOAP-ENV:Envelope xmlns:SOAP-ENV="http://www.w3.org/2003/05/soap-envelope"\<newline>'' @
         ''                   xmlns:'' @ namespace @ ''="'' @ ns_url @ ''">\<newline>'' @
         ''    <SOAP-ENV:Body>\<newline>'' @
         ''        <'' @ namespace @ '':'' @ operation @ ''Response/>\<newline>'' @
         ''    </SOAP-ENV:Body>\<newline>'' @
         ''</SOAP-ENV:Envelope>'')\<close>

definition build_fault_response :: "string \<Rightarrow> string \<Rightarrow> string \<Rightarrow> string" where
  \<open>build_fault_response faultcode faultstring detail =
     (let detail_elem = (if detail \<noteq> [] then ''<detail>'' @ detail @ ''</detail>'' else [])
      in ''<?xml version="1.0" encoding="UTF-8"?>\<newline>'' @
         ''<SOAP-ENV:Envelope xmlns:SOAP-ENV="http://www.w3.org/2003/05/soap-envelope">\<newline>'' @
         ''    <SOAP-ENV:Body>\<newline>'' @
         ''        <SOAP-ENV:Fault>\<newline>'' @
         ''            <SOAP-ENV:Code>\<newline>'' @
         ''                <SOAP-ENV:Value>'' @ faultcode @ ''</SOAP-ENV:Value>\<newline>'' @
         ''            </SOAP-ENV:Code>\<newline>'' @
         ''            <SOAP-ENV:Reason>\<newline>'' @
         ''                <SOAP-ENV:Text xml:lang="en">'' @ faultstring @ ''</SOAP-ENV:Text>\<newline>'' @
         ''            </SOAP-ENV:Reason>\<newline>'' @
         ''            '' @ detail_elem @ ''\<newline>'' @
         ''        </SOAP-ENV:Fault>\<newline>'' @
         ''    </SOAP-ENV:Body>\<newline>'' @
         ''</SOAP-ENV:Envelope>'')\<close>

definition build_service_capabilities_response :: string where
  \<open>build_service_capabilities_response =
     ''<?xml version="1.0" encoding="UTF-8"?>\<newline>'' @
     ''<SOAP-ENV:Envelope xmlns:SOAP-ENV="http://www.w3.org/2003/05/soap-envelope"\<newline>'' @
     ''                   xmlns:tptz="http://www.onvif.org/ver20/ptz/wsdl"\<newline>'' @
     ''                   xmlns:tt="http://www.onvif.org/ver10/schema">\<newline>'' @
     ''    <SOAP-ENV:Body>\<newline>'' @
     ''        <tptz:GetServiceCapabilitiesResponse>\<newline>'' @
     ''            <tptz:Capabilities EFlip="false" Reverse="false" GetCompatibleConfigurations="true" MoveStatus="true"/>\<newline>'' @
     ''        </tptz:GetServiceCapabilitiesResponse>\<newline>'' @
     ''    </SOAP-ENV:Body>\<newline>'' @
     ''</SOAP-ENV:Envelope>''\<close>

section \<open>Capability splicer (proxy_server.py, add_fov_to_config_options)\<close>

definition tag_Spaces :: string where
  "tag_Spaces = clark ns_tt ''Spaces''"

definition tag_RelativePanTiltTranslationSpace :: string where
  "tag_RelativePanTiltTranslationSpace = clark ns_tt ''RelativePanTiltTranslationSpace''"

definition tag_URI :: string where
  "tag_URI = clark ns_tt ''URI''"

definition leaf :: "string \<Rightarrow> string \<Rightarrow> xml" where
  "leaf name txt = Element (clark ns_tt name) [] (Some txt) [] None"

definition fov_space :: xml where
  "fov_space =
     Element tag_RelativePanTiltTranslationSpace [] None
       [leaf ''URI'' ''http://www.onvif.org/ver10/tptz/PanTiltSpaces/TranslationSpaceFov'',
        Element (clark ns_tt ''XRange'') [] None [leaf ''Min'' ''-1'', leaf ''Max'' ''1''] None,
        Element (clark ns_tt ''YRange'') [] None [leaf ''Min'' ''-1'', leaf ''Max'' ''1''] None]
       None"

text \<open>
  The loop over the existing spaces either runs to its end, or returns because a FOV
  space exists, or raises: \<open>'TranslationSpaceFov' in uri.text\<close> is a \<open>TypeError\<close>
  when the \<open>URI\<close> element has no text.
\<close>

datatype scan = NotFound | AlreadyExists | ScanRaised

fun fov_scan :: "xml list \<Rightarrow> scan" where
  "fov_scan [] = NotFound"
| "fov_scan (space # rest) =
     (case find_child space tag_URI of
        None \<Rightarrow> fov_scan rest
      | Some uri \<Rightarrow>
          (case elem_text uri of
             None \<Rightarrow> ScanRaised
           | Some txt \<Rightarrow> if str_in ''TranslationSpaceFov'' txt then AlreadyExists else fov_scan rest))"

fun last_index :: "(xml \<Rightarrow> bool) \<Rightarrow> nat \<Rightarrow> nat option \<Rightarrow> xml list \<Rightarrow> nat option" where
  "last_index P idx acc [] = acc"
| "last_index P idx acc (child # rest) =
     last_index P (Suc idx) (if P child then Some idx else acc) rest"

definition list_insert :: "nat \<Rightarrow> 'a \<Rightarrow> 'a list \<Rightarrow> 'a list" where
  "list_insert i v xs = take i xs @ [v] @ drop i xs"

definition insert_fov :: "xml \<Rightarrow> xml" where
  "insert_fov spaces =
     (let last_rel_pt_idx =
            last_index (\<lambda>child. tag child = tag_RelativePanTiltTranslationSpace) 0 None
                       (children spaces);
          kids = (case last_rel_pt_idx of
                    Some i \<Rightarrow> list_insert (i + 1) fov_space (children spaces)
                  | None \<Rightarrow> children spaces @ [fov_space])
      in Element (tag spaces) (attrib spaces) (elem_text spaces) kids (tail spaces))"

text \<open>
  The source mutates the \<open>Spaces\<close> element it found inside the tree. The model
  rebuilds the tree with that one element replaced: \<open>update_first t f\<close> applies \<open>f\<close>
  to the first element with tag \<open>t\<close> of a forest, in document order, which is the
  element \<open>find('.//t')\<close> returns.
\<close>

fun update_first :: "string \<Rightarrow> (xml \<Rightarrow> xml) \<Rightarrow> xml list \<Rightarrow> xml list" where
  "update_first t f [] = []"
| "update_first t f (Element tg ats tx ch ta # es) =
     (if tg = t then f (Element tg ats tx ch ta) # es
      else if find (\<lambda>d. tag d = t) (concat (map iter ch)) \<noteq> None
      then Element tg ats tx (update_first t f ch) ta # es
      else Element tg ats tx ch ta # update_first t f es)"

definition with_spaces_updated :: "xml \<Rightarrow> xml" where
  "with_spaces_updated xroot =
     Element (tag xroot) (attrib xroot) (elem_text xroot)
             (update_first tag_Spaces insert_fov (children xroot)) (tail xroot)"

definition add_fov_to_config_options :: "fromstring \<Rightarrow> tostring \<Rightarrow> string \<Rightarrow> string" where
  "add_fov_to_config_options parse serialize soap_response =
     (case parse soap_response of
        None \<Rightarrow> soap_response
      | Some xroot \<Rightarrow>
          (case find_path xroot tag_Spaces of
             None \<Rightarrow> soap_response
           | Some spaces \<Rightarrow>
               (case find_child spaces tag_RelativePanTiltTranslationSpace of
                  None \<Rightarrow> soap_response
                | Some rel_pt_space \<Rightarrow>
                    (case fov_scan (findall spaces tag_RelativePanTiltTranslationSpace) of
                       AlreadyExists \<Rightarrow> soap_response
                     | ScanRaised \<Rightarrow> soap_response
                     | NotFound \<Rightarrow> serialize (with_spaces_updated xroot)))))"

section \<open>Status tracker (onvif_ptz_wrapper.py)\<close>

datatype move_status = IDLE | MOVING

record position =
  PanTilt_x :: real
  PanTilt_y :: real
  Zoom_x :: real

text \<open>
  The tracker's fields. A timer of \<open>_stop_timers\<close> that is pending is \<open>Some d\<close>, with
  \<open>d\<close> the delay it was started with; a timer that was cancelled, has fired or was
  never set is \<open>None\<close>. Numbers are Python floats, modelled as reals.
\<close>

record tracker =
  pan_tilt_status :: move_status
  zoom_status :: move_status
  estimated_position :: position
  pantilt_timer :: "real option"
  zoom_timer :: "real option"
  native_status_support :: bool

definition set_pan_tilt_status :: "tracker \<Rightarrow> move_status \<Rightarrow> real \<Rightarrow> tracker" where
  "set_pan_tilt_status st status duration =
     st\<lparr>pan_tilt_status := status,
        pantilt_timer := (if status = MOVING \<and> duration > 0 then Some duration else None)\<rparr>"

definition set_zoom_status :: "tracker \<Rightarrow> move_status \<Rightarrow> real \<Rightarrow> tracker" where
  "set_zoom_status st status duration =
     st\<lparr>zoom_status := status,
        zoom_timer := (if status = MOVING \<and> duration > 0 then Some duration else None)\<rparr>"

text \<open>The callbacks \<open>set_idle\<close> of the two timers, run when a pending timer fires.\<close>

definition pantilt_timer_fires :: "tracker \<Rightarrow> tracker" where
  "pantilt_timer_fires st = st\<lparr>pan_tilt_status := IDLE, pantilt_timer := None\<rparr>"

definition zoom_timer_fires :: "tracker \<Rightarrow> tracker" where
  "zoom_timer_fires st = st\<lparr>zoom_status := IDLE, zoom_timer := None\<rparr>"

definition update_estimated_position ::
    "tracker \<Rightarrow> (real \<times> real) option \<Rightarrow> real option \<Rightarrow> real \<Rightarrow> vector option \<Rightarrow> tracker" where
  "update_estimated_position st pan_tilt zoom duration velocity =
     (let p = estimated_position st;
          p1 = (case pan_tilt of
                  Some (dx, dy) \<Rightarrow> p\<lparr>PanTilt_x := PanTilt_x p + dx, PanTilt_y := PanTilt_y p + dy\<rparr>
                | None \<Rightarrow>
                    (case velocity of
                       None \<Rightarrow> p
                     | Some v \<Rightarrow>
                         (case PanTilt v of
                            None \<Rightarrow> p
                          | Some (vx, vy) \<Rightarrow>
                              if duration > 0
                              then p\<lparr>PanTilt_x := PanTilt_x p + vx * duration * 0.1,
                                     PanTilt_y := PanTilt_y p + vy * duration * 0.1\<rparr>
                              else p)));
          p2 = (case zoom of
                  Some dz \<Rightarrow> p1\<lparr>Zoom_x := Zoom_x p1 + dz\<rparr>
                | None \<Rightarrow>
                    (case velocity of
                       None \<Rightarrow> p1
                     | Some v \<Rightarrow>
                         (case Zoom v of
                            None \<Rightarrow> p1
                          | Some vz \<Rightarrow>
                              if duration > 0
                              then p1\<lparr>Zoom_x := Zoom_x p1 + vz * duration * 0.1\<rparr>
                              else p1)))
      in st\<lparr>estimated_position :=
              \<lparr>PanTilt_x = max (- 1) (min 1 (PanTilt_x p2)),
               PanTilt_y = max (- 1) (min 1 (PanTilt_y p2)),
               Zoom_x = max 0 (min 1 (Zoom_x p2))\<rparr>\<rparr>)"

text \<open>
  The calls the wrapper makes on the camera's PTZ service. The service is outside the
  program: a call returns, or raises an exception with a message (\<open>Some\<close> message).
\<close>

datatype camera_call =
    CamContinuousMove move_params
  | CamRelativeMove relative_params
  | CamAbsoluteMove absolute_params
  | CamStop stop_params
  | CamGetStatus "string option"

type_synonym ptz_service = "camera_call \<Rightarrow> string option"

definition is_stop :: "vector \<Rightarrow> bool" where
  "is_stop velocity =
     (\<not> ((case PanTilt velocity of Some (vx, vy) \<Rightarrow> vx \<noteq> 0 \<or> vy \<noteq> 0 | None \<Rightarrow> False)
         \<or> (case Zoom velocity of Some vz \<Rightarrow> vz \<noteq> 0 | None \<Rightarrow> False)))"

definition move_duration :: "real option \<Rightarrow> real" where
  "move_duration timeout = (case timeout of Some t \<Rightarrow> if t \<noteq> 0 then t else 5 | None \<Rightarrow> 5)"

definition track_continuous_move :: "tracker \<Rightarrow> move_params \<Rightarrow> tracker" where
  "track_continuous_move st request =
     (let velocity = Velocity request;
          pan_tilt = PanTilt velocity;
          zoom = Zoom velocity
      in if is_stop velocity
         then set_zoom_status (set_pan_tilt_status st IDLE 0) IDLE 0
         else (let duration = move_duration (Timeout request);
                   st1 = (if pan_tilt \<noteq> None then set_pan_tilt_status st MOVING duration else st);
                   st2 = (if zoom \<noteq> None then set_zoom_status st1 MOVING duration else st1)
               in update_estimated_position st2 None None duration (Some velocity)))"

definition ContinuousMove :: "ptz_service \<Rightarrow> tracker \<Rightarrow> move_params \<Rightarrow> string + tracker" where
  "ContinuousMove cam st request =
     (case cam (CamContinuousMove request) of
        Some err \<Rightarrow> Inl err
      | None \<Rightarrow> Inr (track_continuous_move st request))"

definition RelativeMove :: "ptz_service \<Rightarrow> tracker \<Rightarrow> relative_params \<Rightarrow> string + tracker" where
  "RelativeMove cam st request =
     (case cam (CamRelativeMove request) of
        Some err \<Rightarrow> Inl err
      | None \<Rightarrow>
          (let duration = 2;
               translation = Translation request;
               st1 = (case PanTilt translation of
                        Some pt_dict \<Rightarrow>
                          update_estimated_position (set_pan_tilt_status st MOVING duration)
                            (Some pt_dict) None 0 None
                      | None \<Rightarrow> st);
               st2 = (case Zoom translation of
                        Some z_dict \<Rightarrow>
                          update_estimated_position (set_zoom_status st1 MOVING duration)
                            None (Some z_dict) 0 None
                      | None \<Rightarrow> st1)
           in Inr st2))"

definition AbsoluteMove :: "ptz_service \<Rightarrow> tracker \<Rightarrow> absolute_params \<Rightarrow> string + tracker" where
  "AbsoluteMove cam st request =
     (case cam (CamAbsoluteMove request) of
        Some err \<Rightarrow> Inl err
      | None \<Rightarrow>
          (let duration = 3;
               pos = Position request;
               st1 = (case PanTilt pos of
                        Some (px, py) \<Rightarrow>
                          (let s = set_pan_tilt_status st MOVING duration
                           in s\<lparr>estimated_position :=
                                  (estimated_position s)\<lparr>PanTilt_x := px, PanTilt_y := py\<rparr>\<rparr>)
                      | None \<Rightarrow> st);
               st2 = (case Zoom pos of
                        Some pz \<Rightarrow>
                          (let s = set_zoom_status st1 MOVING duration
                           in s\<lparr>estimated_position := (estimated_position s)\<lparr>Zoom_x := pz\<rparr>\<rparr>)
                      | None \<Rightarrow> st1)
           in Inr st2))"

definition Stop :: "ptz_service \<Rightarrow> tracker \<Rightarrow> stop_params \<Rightarrow> string + tracker" where
  "Stop cam st request =
     (case cam (CamStop request) of
        Some err \<Rightarrow> Inl err
      | None \<Rightarrow>
          (let st1 = (if stop_PanTilt request then set_pan_tilt_status st IDLE 0 else st);
               st2 = (if stop_Zoom request then set_zoom_status st1 IDLE 0 else st1)
           in Inr st2))"

text \<open>
  \<open>GetStatus\<close>: the camera's own answer when the wrapper found native support and the
  call does not raise (\<open>native\<close> is that call, \<open>None\<close> when it raises), the simulated
  status otherwise. \<open>now\<close> is the clock's reading, already formatted.
\<close>

definition move_status_str :: "move_status \<Rightarrow> string" where
  "move_status_str s = (case s of IDLE \<Rightarrow> ''IDLE'' | MOVING \<Rightarrow> ''MOVING'')"

record ptz_status =
  MoveStatus_PanTilt :: string
  MoveStatus_Zoom :: string
  status_Position :: position
  UTCTime :: string

definition simulated_status :: "string \<Rightarrow> tracker \<Rightarrow> ptz_status" where
  "simulated_status now st =
     \<lparr>MoveStatus_PanTilt = move_status_str (pan_tilt_status st),
      MoveStatus_Zoom = move_status_str (zoom_status st),
      status_Position = estimated_position st,
      UTCTime = now\<rparr>"

definition GetStatus ::
    "(string option \<Rightarrow> ptz_status option) \<Rightarrow> string \<Rightarrow> tracker \<Rightarrow> string option \<Rightarrow> ptz_status" where
  "GetStatus native now st profile_token =
     (case (if native_status_support st then native profile_token else None) of
        Some status \<Rightarrow> status
      | None \<Rightarrow> simulated_status now st)"

definition build_ptz_status_response :: "(real \<Rightarrow> string) \<Rightarrow> ptz_status \<Rightarrow> string" where
  \<open>build_ptz_status_response fmt status =
     ''<?xml version="1.0" encoding="UTF-8"?>\<newline>'' @
     ''<SOAP-ENV:Envelope xmlns:SOAP-ENV="http://www.w3.org/2003/05/soap-envelope"\<newline>'' @
     ''                   xmlns:tptz="http://www.onvif.org/ver20/ptz/wsdl"\<newline>'' @
     ''                   xmlns:tt="http://www.onvif.org/ver10/schema">\<newline>'' @
     ''    <SOAP-ENV:Body>\<newline>'' @
     ''        <tptz:GetStatusResponse>\<newline>'' @
     ''            <tptz:PTZStatus>\<newline>'' @
     ''                <tt:Position>\<newline>'' @
     ''                    <tt:PanTilt x="'' @ fmt (PanTilt_x (status_Position status)) @
         ''" y="'' @ fmt (PanTilt_y (status_Position status)) @ ''"\<newline>'' @
     ''                                space="http://www.onvif.org/ver10/tptz/PanTiltSpaces/PositionGenericSpace"/>\<newline>'' @
     ''                    <tt:Zoom x="'' @ fmt (Zoom_x (status_Position status)) @ ''"\<newline>'' @
     ''                            space="http://www.onvif.org/ver10/tptz/ZoomSpaces/PositionGenericSpace"/>\<newline>'' @
     ''                </tt:Position>\<newline>'' @
     ''                <tt:MoveStatus>\<newline>'' @
     ''                    <tt:PanTilt>'' @ MoveStatus_PanTilt status @ ''</tt:PanTilt>\<newline>'' @
     ''                    <tt:Zoom>'' @ MoveStatus_Zoom status @ ''</tt:Zoom>\<newline>'' @
     ''                </tt:MoveStatus>\<newline>'' @
     ''                <tt:UTCTime>'' @ UTCTime status @ ''</tt:UTCTime>\<newline>'' @
     ''            </tptz:PTZStatus>\<newline>'' @
     ''        </tptz:GetStatusResponse>\<newline>'' @
     ''    </SOAP-ENV:Body>\<newline>'' @
     ''</SOAP-ENV:Envelope>''\<close>

section \<open>PTZ interceptor (ptz_interceptor.py)\<close>

text \<open>
  Everything outside the program that a request handler consults, as one record: the
  XML library, Python's \<open>float\<close> and the timeout pattern, the formatting of a float,
  the clock, the camera's HTTP endpoint and the camera's PTZ service.
\<close>

record env =
  xml_parse :: fromstring
  xml_serialize :: tostring
  to_float :: pyfloat
  to_seconds :: "string \<Rightarrow> real option"
  show_float :: "real \<Rightarrow> string"
  clock :: string
  http :: http_post
  ptz :: ptz_service
  native_status :: "string option \<Rightarrow> ptz_status option"

text \<open>
  What a handler does, as a value: its result, the tracker afterwards, the calls it made
  on the camera's PTZ service before returning, in order, and the calls it left to a
  separate thread, each with the delay the thread sleeps first. A handler's result is
  \<open>Inr\<close> its response body, or \<open>Inl\<close> the message of the exception it raised.
\<close>

record 'a handled =
  outcome :: 'a
  tracker_after :: tracker
  camera_calls :: "camera_call list"
  follow_ups :: "(real \<times> move_params) list"

definition handle_get_service_capabilities :: "tracker \<Rightarrow> (string + string) handled" where
  "handle_get_service_capabilities st =
     \<lparr>outcome = Inr build_service_capabilities_response, tracker_after = st,
      camera_calls = [], follow_ups = []\<rparr>"

definition handle_get_status :: "env \<Rightarrow> tracker \<Rightarrow> xml \<Rightarrow> (string + string) handled" where
  "handle_get_status e st xroot =
     (let profile_token = parse_profile_token xroot;
          status = GetStatus (native_status e) (clock e) st profile_token
      in \<lparr>outcome = Inr (build_ptz_status_response (show_float e) status),
          tracker_after = st,
          camera_calls = (if native_status_support st then [CamGetStatus profile_token] else []),
          follow_ups = []\<rparr>)"

definition handle_continuous_move :: "env \<Rightarrow> tracker \<Rightarrow> xml \<Rightarrow> (string + string) handled" where
  "handle_continuous_move e st xroot =
     (case parse_ptz_continuous_move (to_float e) (to_seconds e) xroot of
        Inl err \<Rightarrow>
          \<lparr>outcome = Inl err, tracker_after = st, camera_calls = [], follow_ups = []\<rparr>
      | Inr params \<Rightarrow>
          (case ContinuousMove (ptz e) st params of
             Inl err \<Rightarrow>
               \<lparr>outcome = Inl err, tracker_after = st,
                camera_calls = [CamContinuousMove params], follow_ups = []\<rparr>
           | Inr st' \<Rightarrow>
               \<lparr>outcome = Inr (build_simple_response ''ContinuousMove'' ''tptz''),
                tracker_after = st',
                camera_calls = [CamContinuousMove params], follow_ups = []\<rparr>))"

definition sign_velocity :: "real \<Rightarrow> real" where
  "sign_velocity d = (if d > 0 then 0.5 else (if d < 0 then - 0.5 else 0))"

definition relative_duration :: "real \<Rightarrow> real \<Rightarrow> real" where
  "relative_duration x_trans y_trans =
     max 0.3 (min 5.0 (\<bar>x_trans\<bar> * 10.0 + \<bar>y_trans\<bar> * 10.0))"

definition zero_velocity :: vector where
  "zero_velocity = \<lparr>PanTilt = Some (0, 0), Zoom = Some 0\<rparr>"

definition handle_relative_move :: "env \<Rightarrow> tracker \<Rightarrow> xml \<Rightarrow> (string + string) handled" where
  "handle_relative_move e st xroot =
     (case parse_ptz_relative_move (to_float e) xroot of
        Inl err \<Rightarrow>
          \<lparr>outcome = Inl err, tracker_after = st, camera_calls = [], follow_ups = []\<rparr>
      | Inr params \<Rightarrow>
          (let translation = Translation params;
               pan_tilt = PanTilt translation;
               zoom = Zoom translation
           in case pan_tilt of
                Some (x_trans, y_trans) \<Rightarrow>
                  (let velocity_x = sign_velocity x_trans;
                       velocity_y = sign_velocity y_trans;
                       duration = relative_duration x_trans y_trans;
                       start_params =
                         \<lparr>ProfileToken = rel_ProfileToken params,
                          Velocity = \<lparr>PanTilt = Some (velocity_x, velocity_y), Zoom = Some 0\<rparr>,
                          Timeout = None\<rparr>;
                       stop_move =
                         \<lparr>ProfileToken = rel_ProfileToken params,
                          Velocity = zero_velocity, Timeout = None\<rparr>
                   in case ContinuousMove (ptz e) st start_params of
                        Inl err \<Rightarrow>
                          \<lparr>outcome = Inl err, tracker_after = st,
                           camera_calls = [CamContinuousMove start_params], follow_ups = []\<rparr>
                      | Inr st' \<Rightarrow>
                          \<lparr>outcome = Inr (build_simple_response ''RelativeMove'' ''tptz''),
                           tracker_after = st',
                           camera_calls = [CamContinuousMove start_params],
                           follow_ups = [(duration, stop_move)]\<rparr>)
              | None \<Rightarrow>
                  (if zoom \<noteq> None
                   then (case RelativeMove (ptz e) st params of
                           Inl err \<Rightarrow>
                             \<lparr>outcome = Inl err, tracker_after = st,
                              camera_calls = [CamRelativeMove params], follow_ups = []\<rparr>
                         | Inr st' \<Rightarrow>
                             \<lparr>outcome = Inr (build_simple_response ''RelativeMove'' ''tptz''),
                              tracker_after = st',
                              camera_calls = [CamRelativeMove params], follow_ups = []\<rparr>)
                   else \<lparr>outcome = Inr (build_simple_response ''RelativeMove'' ''tptz''),
                         tracker_after = st, camera_calls = [], follow_ups = []\<rparr>)))"

definition handle_absolute_move :: "env \<Rightarrow> tracker \<Rightarrow> xml \<Rightarrow> (string + string) handled" where
  "handle_absolute_move e st xroot =
     (case parse_ptz_absolute_move (to_float e) xroot of
        Inl err \<Rightarrow>
          \<lparr>outcome = Inl err, tracker_after = st, camera_calls = [], follow_ups = []\<rparr>
      | Inr params \<Rightarrow>
          (case AbsoluteMove (ptz e) st params of
             Inl err \<Rightarrow>
               \<lparr>outcome = Inl err, tracker_after = st,
                camera_calls = [CamAbsoluteMove params], follow_ups = []\<rparr>
           | Inr st' \<Rightarrow>
               \<lparr>outcome = Inr (build_simple_response ''AbsoluteMove'' ''tptz''),
                tracker_after = st',
                camera_calls = [CamAbsoluteMove params], follow_ups = []\<rparr>))"

definition handle_stop :: "env \<Rightarrow> tracker \<Rightarrow> xml \<Rightarrow> (string + string) handled" where
  "handle_stop e st xroot =
     (let params = parse_ptz_stop xroot;
          stop_move =
            \<lparr>ProfileToken = stop_ProfileToken params, Velocity = zero_velocity, Timeout = None\<rparr>
      in case ContinuousMove (ptz e) st stop_move of
           Inl err \<Rightarrow>
             \<lparr>outcome = Inl err, tracker_after = st,
              camera_calls = [CamContinuousMove stop_move], follow_ups = []\<rparr>
         | Inr st' \<Rightarrow>
             \<lparr>outcome = Inr (build_simple_response ''Stop'' ''tptz''),
              tracker_after = st',
              camera_calls = [CamContinuousMove stop_move], follow_ups = []\<rparr>)"

text \<open>
  \<open>intercept\<close> returns the pair (response, status), or (None, None) for an operation
  it does not handle; an exception of a handler becomes a fault with status 500.
\<close>

definition answered :: "string \<Rightarrow> (string + string) handled \<Rightarrow> (string \<times> int) option handled" where
  "answered operation h =
     \<lparr>outcome =
        (case outcome h of
           Inr response \<Rightarrow> Some (response, 200)
         | Inl err \<Rightarrow>
             Some (build_fault_response ''SOAP-ENV:Receiver''
                     (''Error processing '' @ operation) err, 500)),
      tracker_after = tracker_after h,
      camera_calls = camera_calls h,
      follow_ups = follow_ups h\<rparr>"

definition not_intercepted :: "tracker \<Rightarrow> (string \<times> int) option handled" where
  "not_intercepted st =
     \<lparr>outcome = None, tracker_after = st, camera_calls = [], follow_ups = []\<rparr>"

definition intercept :: "env \<Rightarrow> tracker \<Rightarrow> string \<Rightarrow> xml \<Rightarrow> (string \<times> int) option handled" where
  "intercept e st operation xroot =
     (if operation = ''GetServiceCapabilities''
      then answered operation (handle_get_service_capabilities st)
      else if operation = ''GetConfigurationOptions'' then not_intercepted st
      else if operation = ''GetStatus'' then answered operation (handle_get_status e st xroot)
      else if operation = ''ContinuousMove''
      then answered operation (handle_continuous_move e st xroot)
      else if operation = ''RelativeMove''
      then answered operation (handle_relative_move e st xroot)
      else if operation = ''AbsoluteMove''
      then answered operation (handle_absolute_move e st xroot)
      else if operation = ''Stop'' then answered operation (handle_stop e st xroot)
      else not_intercepted st)"

section \<open>Request router (proxy_server.py, handle_onvif_request)\<close>

text \<open>
  The route's answer (body and HTTP status), the tracker afterwards, the calls made on
  the camera's PTZ service, the follow-up calls left to a thread, and the HTTP requests
  posted to the camera (URL and body).
\<close>

record routed =
  reply :: "string \<times> int"
  route_tracker :: tracker
  route_camera_calls :: "camera_call list"
  route_follow_ups :: "(real \<times> move_params) list"
  http_posts :: "(string \<times> string) list"

definition proxied :: "env \<Rightarrow> service_proxy \<Rightarrow> tracker \<Rightarrow> string \<Rightarrow> string option \<Rightarrow> string \<Rightarrow> routed" where
  "proxied e px st normalized_service operation soap_body =
     (let (response_text, status_code) = forward_request px (http e) normalized_service soap_body;
          response_text' =
            (if normalized_service = ''ptz_service'' \<and> operation = Some ''GetConfigurationOptions''
             then add_fov_to_config_options (xml_parse e) (xml_serialize e) response_text
             else response_text)
      in \<lparr>reply = (response_text', status_code),
          route_tracker = st,
          route_camera_calls = [],
          route_follow_ups = [],
          http_posts = [(service_url px normalized_service, rewrite_request px soap_body)]\<rparr>)"

definition handle_onvif_request :: "env \<Rightarrow> service_proxy \<Rightarrow> tracker \<Rightarrow> string \<Rightarrow> string \<Rightarrow> routed" where
  "handle_onvif_request e px st service soap_body =
     (let (operation, xroot) = parse_soap_request (xml_parse e) soap_body;
          normalized_service = normalize_service service
      in if normalized_service = ''ptz_service'' \<and> truthy_str operation
         then (let h = intercept e st (the operation) (the xroot)
               in case outcome h of
                    Some (intercepted_response, status_code) \<Rightarrow>
                      \<lparr>reply = (intercepted_response, status_code),
                       route_tracker = tracker_after h,
                       route_camera_calls = camera_calls h,
                       route_follow_ups = follow_ups h,
                       http_posts = []\<rparr>
                  | None \<Rightarrow> proxied e px st normalized_service operation soap_body)
         else proxied e px st normalized_service operation soap_body)"

section \<open>Concrete inputs used by the examples\<close>

definition ex_options_no_relative :: xml where
  "ex_options_no_relative =
     Element ''Envelope'' [] None
       [Element tag_Spaces [] None [Element (clark ns_tt ''ZoomSpace'') [] None [] None] None]
       None"



text \<open>
  A serialiser and a parser for the examples. The serialiser is injective (it goes
  through the enumeration of the countable type of trees) and the parser is its inverse,
  so a serialised tree parses back to itself, as a document written by the XML library
  does.
\<close>

instance xml :: countable
  by countable_datatype

definition ex_serialize :: tostring where
  "ex_serialize t = replicate (to_nat t) (CHR ''x'')"

definition ex_parse :: fromstring where
  "ex_parse s = Some (from_nat (length s))"

definition ex_generic_space :: xml where
  "ex_generic_space =
     Element tag_RelativePanTiltTranslationSpace [] None
       [leaf ''URI'' ''http://www.onvif.org/ver10/tptz/PanTiltSpaces/TranslationGenericSpace'']
       None"

definition ex_options :: "xml list \<Rightarrow> xml" where
  "ex_options spaces =
     Element (clark ns_soap12 ''Envelope'') [] None
       [Element (clark ns_soap12 ''Body'') [] None
          [Element tag_Spaces [] None spaces None] None]
       None"

text \<open>
  The condition of the splicer's loop on one \<open>RelativePanTiltTranslationSpace\<close>: its
  \<open>URI\<close> child has a text that contains \<open>TranslationSpaceFov\<close>.
\<close>

definition has_fov_uri :: "xml \<Rightarrow> bool" where
  "has_fov_uri space =
     (case find_child space tag_URI of
        None \<Rightarrow> False
      | Some uri \<Rightarrow>
          (case elem_text uri of
             None \<Rightarrow> False
           | Some txt \<Rightarrow> str_in ''TranslationSpaceFov'' txt))"

text \<open>
  The shape the three fault envelopes of the forwarder share: the text up to the opening
  \<open>Value\<close> tag, the code and the text up to the opening \<open>Text\<close> tag, the reason, and
  the rest.
\<close>

definition fault_before_code :: string where
  \<open>fault_before_code =
     ''<?xml version="1.0" encoding="UTF-8"?>\<newline>'' @
     ''<SOAP-ENV:Envelope xmlns:SOAP-ENV="http://www.w3.org/2003/05/soap-envelope">\<newline>'' @
     ''    <SOAP-ENV:Body>\<newline>'' @
     ''        <SOAP-ENV:Fault>\<newline>'' @
     ''            <SOAP-ENV:Code>\<newline>'' @
     ''                <SOAP-ENV:Value>''\<close>

definition fault_code_to_reason :: string where
  \<open>fault_code_to_reason =
     ''SOAP-ENV:Receiver</SOAP-ENV:Value>\<newline>'' @
     ''            </SOAP-ENV:Code>\<newline>'' @
     ''            <SOAP-ENV:Reason>\<newline>'' @
     ''                <SOAP-ENV:Text xml:lang="en">''\<close>

definition fault_after_reason :: string where
  \<open>fault_after_reason =
     ''</SOAP-ENV:Text>\<newline>'' @
     ''            </SOAP-ENV:Reason>\<newline>'' @
     ''        </SOAP-ENV:Fault>\<newline>'' @
     ''    </SOAP-ENV:Body>\<newline>'' @
     ''</SOAP-ENV:Envelope>''\<close>

definition receiver_fault :: "string \<Rightarrow> string" where
  "receiver_fault reason =
     fault_before_code @ fault_code_to_reason @ reason @ fault_after_reason"

definition ex_post_timeout :: http_post where
  "ex_post_timeout url body = TimedOut"

definition ex_post_refused :: http_post where
  "ex_post_refused url body = ConnectionFailed ''Connection refused''"

definition ex_post_broken :: http_post where
  "ex_post_broken url body = OtherException ''Invalid URL''"

definition ex_px :: service_proxy where
  "ex_px =
     \<lparr>camera_ip = ''192.168.1.10'', camera_port = 8080,
      proxy_host = ''127.0.0.1'', proxy_port = 8000\<rparr>"

definition ex_payload :: string where
  "ex_payload = ''<a>http://127.0.0.1:8000/onvif/</a>''"

text \<open>The default configuration has the proxy listen on the camera's port number.\<close>

definition ex_px_same :: service_proxy where
  "ex_px_same =
     \<lparr>camera_ip = ''192.168.1.10'', camera_port = 8000,
      proxy_host = ''127.0.0.1'', proxy_port = 8000\<rparr>"

definition idle_tracker :: tracker where
  "idle_tracker =
     \<lparr>pan_tilt_status = IDLE, zoom_status = IDLE,
      estimated_position = \<lparr>PanTilt_x = 0, PanTilt_y = 0, Zoom_x = 0\<rparr>,
      pantilt_timer = None, zoom_timer = None, native_status_support = False\<rparr>"

definition camera_accepts :: ptz_service where
  "camera_accepts call = None"

definition ex_float :: pyfloat where
  "ex_float s =
     (if s = ''0.2'' then Inr 0.2 else if s = ''0.0'' then Inr 0
      else Inl (''could not convert string to float: '' @ s))"

definition ex_env :: env where
  "ex_env =
     \<lparr>xml_parse = (\<lambda>s. None), xml_serialize = (\<lambda>t. []), to_float = ex_float,
      to_seconds = (\<lambda>s. None), show_float = (\<lambda>r. ''0.0''),
      clock = ''2024-01-01T00:00:00.000Z'',
      http = (\<lambda>url body. Responded ''<ok/>'' 200), ptz = camera_accepts,
      native_status = (\<lambda>t. None)\<rparr>"



definition ex_start :: move_params where
  "ex_start =
     \<lparr>ProfileToken = Some ''PROFILE_000'',
      Velocity = \<lparr>PanTilt = Some (0.5, 0), Zoom = Some 0\<rparr>, Timeout = None\<rparr>"


definition ex_moving_tracker :: tracker where
  "ex_moving_tracker =
     \<lparr>pan_tilt_status = MOVING, zoom_status = MOVING,
      estimated_position = \<lparr>PanTilt_x = 0.25, PanTilt_y = 0, Zoom_x = 0\<rparr>,
      pantilt_timer = Some 5, zoom_timer = Some 5, native_status_support = False\<rparr>"

definition ex_absolute_far :: absolute_params where
  "ex_absolute_far =
     \<lparr>abs_ProfileToken = Some ''PROFILE_000'',
      Position = \<lparr>PanTilt = Some (2, 0), Zoom = None\<rparr>\<rparr>"

definition ex_far_tracker :: tracker where
  "ex_far_tracker =
     \<lparr>pan_tilt_status = MOVING, zoom_status = IDLE,
      estimated_position = \<lparr>PanTilt_x = 2, PanTilt_y = 0, Zoom_x = 0\<rparr>,
      pantilt_timer = Some 3, zoom_timer = None, native_status_support = False\<rparr>"

definition ex_absolute_near :: absolute_params where
  "ex_absolute_near =
     \<lparr>abs_ProfileToken = Some ''PROFILE_000'',
      Position = \<lparr>PanTilt = Some (0.5, - 0.25), Zoom = Some 0.5\<rparr>\<rparr>"

definition ex_near_tracker :: tracker where
  "ex_near_tracker =
     \<lparr>pan_tilt_status = MOVING, zoom_status = MOVING,
      estimated_position = \<lparr>PanTilt_x = 0.5, PanTilt_y = - 0.25, Zoom_x = 0.5\<rparr>,
      pantilt_timer = Some 3, zoom_timer = Some 3, native_status_support = False\<rparr>"

section \<open>The position invariant and sequences of tracker operations\<close>

text \<open>
  The ranges the specification gives for the estimated position, the clamping into them,
  and the operations that can reach the tracker, one after the other: the four wrapper
  methods (a call the camera rejects raises before the tracker is touched) and the firing
  of a pending timer.
\<close>

definition in_range :: "position \<Rightarrow> bool" where
  "in_range p =
     (- 1 \<le> PanTilt_x p \<and> PanTilt_x p \<le> 1 \<and> - 1 \<le> PanTilt_y p \<and> PanTilt_y p \<le> 1 \<and>
      0 \<le> Zoom_x p \<and> Zoom_x p \<le> 1)"

definition clamp_position :: "position \<Rightarrow> position" where
  "clamp_position p =
     \<lparr>PanTilt_x = max (- 1) (min 1 (PanTilt_x p)),
      PanTilt_y = max (- 1) (min 1 (PanTilt_y p)),
      Zoom_x = max 0 (min 1 (Zoom_x p))\<rparr>"

definition vector_in_range :: "vector \<Rightarrow> bool" where
  "vector_in_range v =
     ((case PanTilt v of
         Some (px, py) \<Rightarrow> - 1 \<le> px \<and> px \<le> 1 \<and> - 1 \<le> py \<and> py \<le> 1
       | None \<Rightarrow> True) \<and>
      (case Zoom v of Some pz \<Rightarrow> 0 \<le> pz \<and> pz \<le> 1 | None \<Rightarrow> True))"

datatype tracker_op =
    OpContinuousMove move_params
  | OpRelativeMove relative_params
  | OpAbsoluteMove absolute_params
  | OpStop stop_params
  | OpPanTiltTimer
  | OpZoomTimer

definition keep :: "tracker \<Rightarrow> string + tracker \<Rightarrow> tracker" where
  "keep st r = (case r of Inl err \<Rightarrow> st | Inr st' \<Rightarrow> st')"

fun apply_op :: "ptz_service \<Rightarrow> tracker \<Rightarrow> tracker_op \<Rightarrow> tracker" where
  "apply_op cam st (OpContinuousMove request) = keep st (ContinuousMove cam st request)"
| "apply_op cam st (OpRelativeMove request) = keep st (RelativeMove cam st request)"
| "apply_op cam st (OpAbsoluteMove request) = keep st (AbsoluteMove cam st request)"
| "apply_op cam st (OpStop request) = keep st (Stop cam st request)"
| "apply_op cam st OpPanTiltTimer =
     (if pantilt_timer st \<noteq> None then pantilt_timer_fires st else st)"
| "apply_op cam st OpZoomTimer =
     (if zoom_timer st \<noteq> None then zoom_timer_fires st else st)"

fun run_ops :: "ptz_service \<Rightarrow> tracker \<Rightarrow> tracker_op list \<Rightarrow> tracker" where
  "run_ops cam st [] = st"
| "run_ops cam st (op # ops) = run_ops cam (apply_op cam st op) ops"

fun absolute_in_range :: "tracker_op \<Rightarrow> bool" where
  "absolute_in_range (OpAbsoluteMove request) = vector_in_range (Position request)"
| "absolute_in_range other = True"

section \<open>Service-name normalisation\<close>

text \<open>
  Claim C5. The router strips trailing \<open>s\<close> characters and appends \<open>_service\<close> when the
  name does not end with it, so \<open>ptz\<close> becomes \<open>ptz_service\<close>. The claim also says that
  \<open>event\<close> and \<open>events\<close> become \<open>events_service\<close>; the code gives \<open>event_service\<close> for
  both, a name the service catalogue does not hold, although it maps the spelling
  \<open>event_service\<close> itself to \<open>events_service\<close>. The theorem evaluates the code at these
  names.
\<close>

theorem normalize_service_event_names:
  "normalize_service ''event'' = ''event_service'' \<and>
   normalize_service ''events'' = ''event_service'' \<and>
   normalize_service ''event_service'' = ''events_service'' \<and>
   normalize_service ''ptz'' = ''ptz_service''"
  by (simp add: normalize_service_def endswith_def rstrip_def suffix_to_prefix)

section \<open>Capability splicer\<close>

lemma findall_Nil_find_child: "findall e t = [] \<Longrightarrow> find_child e t = None"
  by (simp add: findall_def find_child_def find_None_iff filter_empty_conv)

text \<open>
  Claim C10. When the response parses, a \<open>Spaces\<close> element is found and it has no
  \<open>RelativePanTiltTranslationSpace\<close> child, the splicer returns its input unchanged,
  whatever the serialiser would produce.
\<close>

theorem add_fov_without_relative_space:
  assumes "parse x = Some xroot"
    and "find_path xroot tag_Spaces = Some spaces"
    and "findall spaces tag_RelativePanTiltTranslationSpace = []"
  shows "add_fov_to_config_options parse serialize x = x"
  using assms by (simp add: add_fov_to_config_options_def findall_Nil_find_child)

theorem add_fov_without_relative_space_witness:
  "add_fov_to_config_options (\<lambda>s. Some ex_options_no_relative) (\<lambda>t. ''changed'') ''options''
     = ''options''"
proof -
  have a: "(\<lambda>s. Some ex_options_no_relative) ''options'' = Some ex_options_no_relative"
    by simp
  have b: "find_path ex_options_no_relative tag_Spaces =
             Some (Element tag_Spaces [] None
                     [Element (clark ns_tt ''ZoomSpace'') [] None [] None] None)"
    by (simp add: find_path_def descendants_def ex_options_no_relative_def tag_Spaces_def
                  clark_def)
  have c: "findall (Element tag_Spaces [] None
                      [Element (clark ns_tt ''ZoomSpace'') [] None [] None] None)
             tag_RelativePanTiltTranslationSpace = []"
    by (simp add: findall_def tag_RelativePanTiltTranslationSpace_def clark_def)
  show ?thesis by (rule add_fov_without_relative_space [OF a b c])
qed

section \<open>Status tracker\<close>

lemma update_in_range: "in_range (estimated_position (update_estimated_position st pt z d v))"
  by (simp add: update_estimated_position_def in_range_def Let_def)

lemma set_status_position [simp]:
  "estimated_position (set_pan_tilt_status st s d) = estimated_position st"
  "estimated_position (set_zoom_status st s d) = estimated_position st"
  by (simp_all add: set_pan_tilt_status_def set_zoom_status_def)

lemma update_frame [simp]:
  "pan_tilt_status (update_estimated_position st pt z d v) = pan_tilt_status st"
  "zoom_status (update_estimated_position st pt z d v) = zoom_status st"
  "pantilt_timer (update_estimated_position st pt z d v) = pantilt_timer st"
  "zoom_timer (update_estimated_position st pt z d v) = zoom_timer st"
  by (simp_all add: update_estimated_position_def Let_def)

lemma update_velocity_mode:
  "estimated_position (update_estimated_position st None None d (Some v)) =
     clamp_position
       \<lparr>PanTilt_x = PanTilt_x (estimated_position st) +
            (case PanTilt v of Some (vx, vy) \<Rightarrow> vx * (if d > 0 then d * 0.1 else 0)
             | None \<Rightarrow> 0),
        PanTilt_y = PanTilt_y (estimated_position st) +
            (case PanTilt v of Some (vx, vy) \<Rightarrow> vy * (if d > 0 then d * 0.1 else 0)
             | None \<Rightarrow> 0),
        Zoom_x = Zoom_x (estimated_position st) +
            (case Zoom v of Some vz \<Rightarrow> vz * (if d > 0 then d * 0.1 else 0) | None \<Rightarrow> 0)\<rparr>"
proof (cases "PanTilt v")
  case None
  then show ?thesis
    by (cases "Zoom v")
       (simp_all add: update_estimated_position_def clamp_position_def Let_def)
next
  case (Some xy)
  obtain vx vy where xy: "xy = (vx, vy)" by (cases xy)
  show ?thesis
    using Some xy
    by (cases "Zoom v")
       (simp_all add: update_estimated_position_def clamp_position_def Let_def)
qed

lemma track_continuous_in_range:
  "in_range (estimated_position st) \<Longrightarrow>
   in_range (estimated_position (track_continuous_move st r))"
  by (simp add: track_continuous_move_def Let_def update_in_range)

lemma relative_in_range:
  "in_range (estimated_position st) \<Longrightarrow> RelativeMove cam st r = Inr st' \<Longrightarrow>
   in_range (estimated_position st')"
  by (auto simp: RelativeMove_def Let_def update_in_range split: option.splits)

lemma absolute_position:
  assumes "AbsoluteMove cam st r = Inr st'"
  shows "PanTilt_x (estimated_position st') =
           (case PanTilt (Position r) of Some (px, py) \<Rightarrow> px
            | None \<Rightarrow> PanTilt_x (estimated_position st))"
    and "PanTilt_y (estimated_position st') =
           (case PanTilt (Position r) of Some (px, py) \<Rightarrow> py
            | None \<Rightarrow> PanTilt_y (estimated_position st))"
    and "Zoom_x (estimated_position st') =
           (case Zoom (Position r) of Some pz \<Rightarrow> pz
            | None \<Rightarrow> Zoom_x (estimated_position st))"
  using assms by (auto simp: AbsoluteMove_def Let_def split: option.splits)

lemma absolute_in_range_step:
  assumes "in_range (estimated_position st)" "vector_in_range (Position r)"
    and "AbsoluteMove cam st r = Inr st'"
  shows "in_range (estimated_position st')"
  using assms(1,2) absolute_position [OF assms(3)]
  by (auto simp: in_range_def vector_in_range_def split: option.splits)

lemma stop_position:
  "Stop cam st r = Inr st' \<Longrightarrow> estimated_position st' = estimated_position st"
  by (auto simp: Stop_def Let_def split: option.splits)

lemma apply_op_in_range:
  "in_range (estimated_position st) \<Longrightarrow> absolute_in_range op \<Longrightarrow>
   in_range (estimated_position (apply_op cam st op))"
proof (cases op)
  case (OpContinuousMove r)
  assume "in_range (estimated_position st)"
  then show ?thesis using OpContinuousMove
    by (auto simp: keep_def ContinuousMove_def track_continuous_in_range split: option.splits)
next
  case (OpRelativeMove r)
  assume "in_range (estimated_position st)"
  then show ?thesis using OpRelativeMove relative_in_range [of st cam r]
    by (auto simp: keep_def split: sum.splits)
next
  case (OpAbsoluteMove r)
  assume "in_range (estimated_position st)" "absolute_in_range op"
  then show ?thesis using OpAbsoluteMove absolute_in_range_step [of st r cam]
    by (auto simp: keep_def split: sum.splits)
next
  case (OpStop r)
  assume "in_range (estimated_position st)"
  then show ?thesis using OpStop stop_position [of cam st r]
    by (auto simp: keep_def split: sum.splits)
next
  case OpPanTiltTimer
  assume "in_range (estimated_position st)"
  then show ?thesis using OpPanTiltTimer by (simp add: pantilt_timer_fires_def)
next
  case OpZoomTimer
  assume "in_range (estimated_position st)"
  then show ?thesis using OpZoomTimer by (simp add: zoom_timer_fires_def)
qed

lemma run_ops_in_range:
  "in_range (estimated_position st) \<Longrightarrow> \<forall>op \<in> set ops. absolute_in_range op \<Longrightarrow>
   in_range (estimated_position (run_ops cam st ops))"
  by (induction ops arbitrary: st) (simp_all add: apply_op_in_range)

text \<open>
  Claim C2, as the specification states it, fails on the code: \<open>AbsoluteMove\<close> stores the
  requested position as it is, without clamping. With the pan position 2 requested from
  the idle tracker, the status snapshot reports 2, where the clamped value is 1, and the
  estimated position is out of range.
\<close>

theorem absolute_move_not_clamped:
  "AbsoluteMove camera_accepts idle_tracker ex_absolute_far = Inr ex_far_tracker \<and>
   status_Position (simulated_status ''now'' ex_far_tracker) =
     \<lparr>PanTilt_x = 2, PanTilt_y = 0, Zoom_x = 0\<rparr> \<and>
   clamp_position \<lparr>PanTilt_x = 2, PanTilt_y = 0, Zoom_x = 0\<rparr> =
     \<lparr>PanTilt_x = 1, PanTilt_y = 0, Zoom_x = 0\<rparr> \<and>
   \<not> in_range (estimated_position ex_far_tracker)"
  by (simp add: AbsoluteMove_def camera_accepts_def idle_tracker_def ex_absolute_far_def
                ex_far_tracker_def set_pan_tilt_status_def simulated_status_def
                clamp_position_def in_range_def)

text \<open>
  Claim C2, amended. The estimated position is in range after every call of
  \<open>_update_estimated_position\<close>, whatever the position was before. \<open>AbsoluteMove\<close>,
  when the camera accepts the call, stores each component present in the request as it is
  and leaves an absent component as it was; so with both components present and in range
  the snapshot's position is the clamped request. A sequence of tracker operations that
  starts in range and whose \<open>AbsoluteMove\<close> requests are in range ends in range.
\<close>

theorem position_range_invariant:
  "in_range (estimated_position (update_estimated_position st pan_tilt zoom duration velocity)) \<and>
   (AbsoluteMove cam st request = Inr st' \<longrightarrow>
      PanTilt_x (estimated_position st') =
        (case PanTilt (Position request) of Some (px, py) \<Rightarrow> px
         | None \<Rightarrow> PanTilt_x (estimated_position st)) \<and>
      PanTilt_y (estimated_position st') =
        (case PanTilt (Position request) of Some (px, py) \<Rightarrow> py
         | None \<Rightarrow> PanTilt_y (estimated_position st)) \<and>
      Zoom_x (estimated_position st') =
        (case Zoom (Position request) of Some pz \<Rightarrow> pz
         | None \<Rightarrow> Zoom_x (estimated_position st)) \<and>
      (PanTilt (Position request) \<noteq> None \<and> Zoom (Position request) \<noteq> None \<and>
       vector_in_range (Position request) \<longrightarrow>
         status_Position (simulated_status now st') =
           clamp_position \<lparr>PanTilt_x = fst (the (PanTilt (Position request))),
                            PanTilt_y = snd (the (PanTilt (Position request))),
                            Zoom_x = the (Zoom (Position request))\<rparr>)) \<and>
   (in_range (estimated_position st) \<and> (\<forall>op \<in> set ops. absolute_in_range op) \<longrightarrow>
      in_range (estimated_position (run_ops cam st ops)))"
proof (intro conjI impI)
  show "in_range (estimated_position
          (update_estimated_position st pan_tilt zoom duration velocity))"
    by (rule update_in_range)
next
  assume a: "AbsoluteMove cam st request = Inr st'"
  show "PanTilt_x (estimated_position st') =
        (case PanTilt (Position request) of Some (px, py) \<Rightarrow> px
         | None \<Rightarrow> PanTilt_x (estimated_position st))"
    by (rule absolute_position(1) [OF a])
next
  assume a: "AbsoluteMove cam st request = Inr st'"
  show "PanTilt_y (estimated_position st') =
        (case PanTilt (Position request) of Some (px, py) \<Rightarrow> py
         | None \<Rightarrow> PanTilt_y (estimated_position st))"
    by (rule absolute_position(2) [OF a])
next
  assume a: "AbsoluteMove cam st request = Inr st'"
  show "Zoom_x (estimated_position st') =
        (case Zoom (Position request) of Some pz \<Rightarrow> pz
         | None \<Rightarrow> Zoom_x (estimated_position st))"
    by (rule absolute_position(3) [OF a])
next
  assume a: "AbsoluteMove cam st request = Inr st'"
    and b: "PanTilt (Position request) \<noteq> None \<and> Zoom (Position request) \<noteq> None \<and>
       vector_in_range (Position request)"
  from b absolute_position [OF a]
  show "status_Position (simulated_status now st') =
           clamp_position \<lparr>PanTilt_x = fst (the (PanTilt (Position request))),
                            PanTilt_y = snd (the (PanTilt (Position request))),
                            Zoom_x = the (Zoom (Position request))\<rparr>"
    by (cases "estimated_position st'")
       (auto simp: simulated_status_def clamp_position_def vector_in_range_def)
next
  assume "in_range (estimated_position st) \<and> (\<forall>op \<in> set ops. absolute_in_range op)"
  then show "in_range (estimated_position (run_ops cam st ops))"
    by (simp add: run_ops_in_range)
qed

lemma ex_absolute_near_tracked:
  "AbsoluteMove camera_accepts idle_tracker ex_absolute_near = Inr ex_near_tracker"
  by (simp add: AbsoluteMove_def camera_accepts_def idle_tracker_def ex_absolute_near_def
                ex_near_tracker_def set_pan_tilt_status_def set_zoom_status_def)

theorem position_range_invariant_witness:
  "AbsoluteMove camera_accepts idle_tracker ex_absolute_near = Inr ex_near_tracker \<and>
   status_Position (simulated_status ''now'' ex_near_tracker) =
     \<lparr>PanTilt_x = 0.5, PanTilt_y = - 0.25, Zoom_x = 0.5\<rparr> \<and>
   in_range (estimated_position
     (run_ops camera_accepts idle_tracker [OpAbsoluteMove ex_absolute_near, OpContinuousMove ex_start]))"
proof -
  have v: "PanTilt (Position ex_absolute_near) \<noteq> None \<and> Zoom (Position ex_absolute_near) \<noteq> None \<and>
           vector_in_range (Position ex_absolute_near)"
    by (simp add: ex_absolute_near_def vector_in_range_def)
  have r: "in_range (estimated_position idle_tracker) \<and>
           (\<forall>op \<in> set [OpAbsoluteMove ex_absolute_near, OpContinuousMove ex_start].
              absolute_in_range op)"
    using v by (simp add: idle_tracker_def in_range_def)
  note t = position_range_invariant
             [of idle_tracker None None 0 None camera_accepts ex_absolute_near ex_near_tracker
                 "''now''" "[OpAbsoluteMove ex_absolute_near, OpContinuousMove ex_start]"]
  have c: "clamp_position \<lparr>PanTilt_x = fst (the (PanTilt (Position ex_absolute_near))),
                           PanTilt_y = snd (the (PanTilt (Position ex_absolute_near))),
                           Zoom_x = the (Zoom (Position ex_absolute_near))\<rparr> =
           \<lparr>PanTilt_x = 0.5, PanTilt_y = - 0.25, Zoom_x = 0.5\<rparr>"
    by (simp add: ex_absolute_near_def clamp_position_def)
  from t ex_absolute_near_tracked v r c show ?thesis by simp
qed

lemma is_stop_iff:
  "is_stop v \<longleftrightarrow>
     (PanTilt v = None \<or> PanTilt v = Some (0, 0)) \<and> (Zoom v = None \<or> Zoom v = Some 0)"
  by (auto simp: is_stop_def split: option.splits)

lemma move_duration_cases:
  "move_duration timeout = (case timeout of Some t \<Rightarrow> if t = 0 then 5 else t | None \<Rightarrow> 5)"
  by (simp add: move_duration_def split: option.splits)

lemma track_stop:
  assumes "is_stop (Velocity request)"
  shows "track_continuous_move st request =
           st\<lparr>pan_tilt_status := IDLE, pantilt_timer := None,
              zoom_status := IDLE, zoom_timer := None\<rparr>"
  using assms
  by (simp add: track_continuous_move_def set_pan_tilt_status_def set_zoom_status_def)

lemma track_moving_status:
  assumes "\<not> is_stop (Velocity request)" and "d = move_duration (Timeout request)"
  shows "pan_tilt_status (track_continuous_move st request) =
           (if PanTilt (Velocity request) \<noteq> None then MOVING else pan_tilt_status st)"
    and "pantilt_timer (track_continuous_move st request) =
           (if PanTilt (Velocity request) \<noteq> None then (if d > 0 then Some d else None)
            else pantilt_timer st)"
    and "zoom_status (track_continuous_move st request) =
           (if Zoom (Velocity request) \<noteq> None then MOVING else zoom_status st)"
    and "zoom_timer (track_continuous_move st request) =
           (if Zoom (Velocity request) \<noteq> None then (if d > 0 then Some d else None)
            else zoom_timer st)"
  using assms
  by (simp_all add: track_continuous_move_def Let_def set_pan_tilt_status_def
                    set_zoom_status_def)

lemma track_moving_position:
  assumes "\<not> is_stop (Velocity request)" and "d = move_duration (Timeout request)"
    and "k = (if d > 0 then d * 0.1 else 0)"
  shows "estimated_position (track_continuous_move st request) =
           clamp_position
             \<lparr>PanTilt_x = PanTilt_x (estimated_position st) +
                  (case PanTilt (Velocity request) of Some (vx, vy) \<Rightarrow> vx * k | None \<Rightarrow> 0),
              PanTilt_y = PanTilt_y (estimated_position st) +
                  (case PanTilt (Velocity request) of Some (vx, vy) \<Rightarrow> vy * k | None \<Rightarrow> 0),
              Zoom_x = Zoom_x (estimated_position st) +
                  (case Zoom (Velocity request) of Some vz \<Rightarrow> vz * k | None \<Rightarrow> 0)\<rparr>"
  unfolding assms(3)
  using assms(1) assms(2) [symmetric]
  by (simp add: track_continuous_move_def Let_def update_velocity_mode)

text \<open>
  Claim C3, as the specification states it, fails on the code: an axis that is present
  in the request with velocity zero is set to \<open>MOVING\<close> too, as soon as the other axis
  moves. The request below pans and carries \<open>Zoom = 0\<close>; the zoom axis, idle before,
  is \<open>MOVING\<close> afterwards with a five-second timer.
\<close>

lemma ex_start_tracked:
  "ContinuousMove camera_accepts idle_tracker ex_start = Inr ex_moving_tracker"
  by (simp add: ContinuousMove_def camera_accepts_def track_continuous_move_def is_stop_def
                ex_start_def move_duration_def Let_def set_pan_tilt_status_def
                set_zoom_status_def update_estimated_position_def idle_tracker_def
                ex_moving_tracker_def)

theorem continuous_move_zero_axis_moving:
  "ContinuousMove camera_accepts idle_tracker ex_start = Inr ex_moving_tracker \<and>
   Zoom (Velocity ex_start) = Some 0 \<and> zoom_status idle_tracker = IDLE \<and>
   zoom_status ex_moving_tracker = MOVING \<and> zoom_timer ex_moving_tracker = Some 5"
  by (simp add: ex_start_tracked) (simp add: ex_start_def idle_tracker_def ex_moving_tracker_def)

text \<open>
  Claim C3, amended. After a \<open>ContinuousMove\<close> the camera accepted: when each velocity
  is absent or zero, both axes are \<open>IDLE\<close> with no timer pending, whatever they were,
  and the position is as before. Otherwise every axis present in the request, with
  velocity zero or not, is \<open>MOVING\<close> with a timer of the duration \<open>d\<close> (an axis absent
  from the request is left as it was), where \<open>d\<close> is the request's timeout when there
  is one and it is not zero, and 5 otherwise; and the position is updated in velocity
  mode, each present velocity times \<open>d\<close> times 0.1 added, then clamped.
\<close>

theorem continuous_move_tracking:
  assumes "ContinuousMove cam st request = Inr st'"
    and "v = Velocity request"
    and "d = (case Timeout request of Some t \<Rightarrow> if t = 0 then 5 else t | None \<Rightarrow> 5)"
    and "k = (if d > 0 then d * 0.1 else 0)"
  shows "((PanTilt v = None \<or> PanTilt v = Some (0, 0)) \<and> (Zoom v = None \<or> Zoom v = Some 0) \<longrightarrow>
            pan_tilt_status st' = IDLE \<and> zoom_status st' = IDLE \<and>
            pantilt_timer st' = None \<and> zoom_timer st' = None \<and>
            estimated_position st' = estimated_position st) \<and>
         (\<not> ((PanTilt v = None \<or> PanTilt v = Some (0, 0)) \<and>
              (Zoom v = None \<or> Zoom v = Some 0)) \<longrightarrow>
            pan_tilt_status st' = (if PanTilt v \<noteq> None then MOVING else pan_tilt_status st) \<and>
            pantilt_timer st' =
              (if PanTilt v \<noteq> None then (if d > 0 then Some d else None) else pantilt_timer st) \<and>
            zoom_status st' = (if Zoom v \<noteq> None then MOVING else zoom_status st) \<and>
            zoom_timer st' =
              (if Zoom v \<noteq> None then (if d > 0 then Some d else None) else zoom_timer st) \<and>
            estimated_position st' =
              clamp_position
                \<lparr>PanTilt_x = PanTilt_x (estimated_position st) +
                     (case PanTilt v of Some (vx, vy) \<Rightarrow> vx * k | None \<Rightarrow> 0),
                 PanTilt_y = PanTilt_y (estimated_position st) +
                     (case PanTilt v of Some (vx, vy) \<Rightarrow> vy * k | None \<Rightarrow> 0),
                 Zoom_x = Zoom_x (estimated_position st) +
                     (case Zoom v of Some vz \<Rightarrow> vz * k | None \<Rightarrow> 0)\<rparr>)"
proof -
  from assms(1) have st': "st' = track_continuous_move st request"
    by (auto simp: ContinuousMove_def split: option.splits)
  have d: "d = move_duration (Timeout request)"
    using assms(3) by (simp add: move_duration_cases)
  show ?thesis
    unfolding is_stop_iff [symmetric] st' assms(2)
  proof (intro conjI impI)
    assume s: "is_stop (Velocity request)"
    show "pan_tilt_status (track_continuous_move st request) = IDLE"
      "zoom_status (track_continuous_move st request) = IDLE"
      "pantilt_timer (track_continuous_move st request) = None"
      "zoom_timer (track_continuous_move st request) = None"
      "estimated_position (track_continuous_move st request) = estimated_position st"
      by (simp_all add: track_stop [OF s])
  next
    assume ns: "\<not> is_stop (Velocity request)"
    show "pan_tilt_status (track_continuous_move st request) =
            (if PanTilt (Velocity request) \<noteq> None then MOVING else pan_tilt_status st)"
      by (rule track_moving_status(1) [OF ns d])
    show "pantilt_timer (track_continuous_move st request) =
            (if PanTilt (Velocity request) \<noteq> None then (if d > 0 then Some d else None)
             else pantilt_timer st)"
      by (rule track_moving_status(2) [OF ns d])
    show "zoom_status (track_continuous_move st request) =
            (if Zoom (Velocity request) \<noteq> None then MOVING else zoom_status st)"
      by (rule track_moving_status(3) [OF ns d])
    show "zoom_timer (track_continuous_move st request) =
            (if Zoom (Velocity request) \<noteq> None then (if d > 0 then Some d else None)
             else zoom_timer st)"
      by (rule track_moving_status(4) [OF ns d])
    show "estimated_position (track_continuous_move st request) =
            clamp_position
              \<lparr>PanTilt_x = PanTilt_x (estimated_position st) +
                   (case PanTilt (Velocity request) of Some (vx, vy) \<Rightarrow> vx * k | None \<Rightarrow> 0),
               PanTilt_y = PanTilt_y (estimated_position st) +
                   (case PanTilt (Velocity request) of Some (vx, vy) \<Rightarrow> vy * k | None \<Rightarrow> 0),
               Zoom_x = Zoom_x (estimated_position st) +
                   (case Zoom (Velocity request) of Some vz \<Rightarrow> vz * k | None \<Rightarrow> 0)\<rparr>"
      by (rule track_moving_position [OF ns d assms(4)])
  qed
qed

theorem continuous_move_tracking_witness:
  "ContinuousMove camera_accepts idle_tracker ex_start = Inr ex_moving_tracker \<and>
   pan_tilt_status ex_moving_tracker = MOVING \<and> pantilt_timer ex_moving_tracker = Some 5 \<and>
   estimated_position ex_moving_tracker = \<lparr>PanTilt_x = 0.25, PanTilt_y = 0, Zoom_x = 0\<rparr>"
proof -
  have v: "\<lparr>PanTilt = Some (0.5, 0), Zoom = Some 0\<rparr> = Velocity ex_start"
    by (simp add: ex_start_def)
  have d: "(5::real) = (case Timeout ex_start of Some t \<Rightarrow> if t = 0 then 5 else t | None \<Rightarrow> 5)"
    by (simp add: ex_start_def)
  have k: "(0.5::real) = (if (5::real) > 0 then 5 * 0.1 else 0)" by simp
  note t = continuous_move_tracking [OF ex_start_tracked v d k]
  have p: "estimated_position idle_tracker = \<lparr>PanTilt_x = 0, PanTilt_y = 0, Zoom_x = 0\<rparr>"
    by (simp add: idle_tracker_def)
  from t show ?thesis
    by (simp add: ex_start_tracked p clamp_position_def)
qed

section \<open>PTZ interceptor: RelativeMove\<close>








section \<open>Capability splicer: idempotence\<close>

lemma find_app: "find P (xs @ ys) = (case find P xs of None \<Rightarrow> find P ys | Some x \<Rightarrow> Some x)"
  by (induction xs) auto

lemma iter_unfold: "iter e = e # concat (map iter (children e))"
  by (cases e) simp

lemma find_iter_hit: "tag e = t \<Longrightarrow> find (\<lambda>d. tag d = t) (iter e @ rest) = Some e"
  by (cases e) simp

lemma find_update_first:
  assumes f: "\<And>e. tag e = t \<Longrightarrow> tag (f e) = t"
  shows "find (\<lambda>d. tag d = t) (concat (map iter (update_first t f xs))) =
         map_option f (find (\<lambda>d. tag d = t) (concat (map iter xs)))"
  using f
proof (induction t f xs rule: update_first.induct)
  case (1 t f)
  then show ?case by simp
next
  case (2 t f tg ats tx ch ta es)
  show ?case
  proof (cases "tg = t")
    case True
    then have "tag (f (Element tg ats tx ch ta)) = t" using 2(3) by simp
    then show ?thesis using True by (simp add: find_iter_hit del: iter.simps)
  next
    case False
    show ?thesis
    proof (cases "find (\<lambda>d. tag d = t) (concat (map iter ch)) = None")
      case True
      with False 2(2) [OF False _ 2(3)] show ?thesis
        by (simp add: find_app)
    next
      case nn: False
      with False 2(1) [OF False _ 2(3)] show ?thesis
        by (auto simp: find_app split: option.splits)
    qed
  qed
qed

lemma fov_scan_append:
  "fov_scan (xs @ ys) = (case fov_scan xs of NotFound \<Rightarrow> fov_scan ys | r \<Rightarrow> r)"
  by (induction xs) (auto split: option.splits scan.splits)

lemma last_index_none: "(\<forall>x \<in> set xs. \<not> P x) \<Longrightarrow> last_index P idx acc xs = acc"
  by (induction xs arbitrary: idx acc) auto

lemma last_index_Some:
  "last_index P idx acc xs = Some i \<Longrightarrow> \<exists>x \<in> set xs. P x \<Longrightarrow>
   idx \<le> i \<and> i < idx + length xs \<and> (\<forall>x \<in> set (drop (Suc i - idx) xs). \<not> P x)"
proof (induction xs arbitrary: idx acc)
  case Nil
  then show ?case by simp
next
  case (Cons c cs)
  show ?case
  proof (cases "\<exists>x \<in> set cs. P x")
    case True
    from Cons.prems(1) have "last_index P (Suc idx) (if P c then Some idx else acc) cs = Some i"
      by simp
    from Cons.IH [OF this True]
    have a: "Suc idx \<le> i" "i < Suc idx + length cs" "\<forall>x \<in> set (drop (Suc i - Suc idx) cs). \<not> P x"
      by auto
    have "drop (Suc i - idx) (c # cs) = drop (Suc i - Suc idx) cs"
      using a(1) by (simp add: Suc_diff_le drop_Cons')
    with a show ?thesis by auto
  next
    case False
    then have n: "\<forall>x \<in> set cs. \<not> P x" by simp
    with Cons.prems(2) have pc: "P c" by auto
    from Cons.prems(1) have "i = idx"
      using pc by (simp add: last_index_none [OF n])
    then show ?thesis using n by simp
  qed
qed

lemma last_index_found:
  "\<exists>x \<in> set xs. P x \<Longrightarrow> last_index P idx acc xs \<noteq> None"
proof (induction xs arbitrary: idx acc)
  case Nil
  then show ?case by simp
next
  case (Cons c cs)
  show ?case
  proof (cases "\<exists>x \<in> set cs. P x")
    case True
    then show ?thesis using Cons.IH by simp
  next
    case False
    then have n: "\<forall>x \<in> set cs. \<not> P x" by simp
    with Cons.prems have "P c" by auto
    then show ?thesis by (simp add: last_index_none [OF n])
  qed
qed

lemma filter_insert_after_last:
  assumes "P v"
  shows "filter P (case last_index P 0 None xs of
                     Some i \<Rightarrow> list_insert (i + 1) v xs
                   | None \<Rightarrow> xs @ [v]) = filter P xs @ [v]"
proof (cases "last_index P 0 None xs")
  case None
  then show ?thesis using assms by simp
next
  case (Some i)
  have e: "\<exists>x \<in> set xs. P x"
  proof (rule ccontr)
    assume "\<not> (\<exists>x \<in> set xs. P x)"
    then have "last_index P 0 None xs = None" by (simp add: last_index_none)
    with Some show False by simp
  qed
  from last_index_Some [OF Some e] have d: "\<forall>x \<in> set (drop (Suc i) xs). \<not> P x" by simp
  then have f0: "filter P (drop (Suc i) xs) = []" by (simp add: filter_empty_conv)
  have "filter P xs = filter P (take (Suc i) xs @ drop (Suc i) xs)" by simp
  also have "\<dots> = filter P (take (Suc i) xs)" using f0 by (simp only: filter_append append_Nil2)
  finally have "filter P xs = filter P (take (Suc i) xs)" .
  then show ?thesis using Some assms f0 by (simp add: list_insert_def)
qed

lemma tag_insert_fov [simp]: "tag (insert_fov spaces) = tag spaces"
  by (simp add: insert_fov_def Let_def)

lemma findall_insert_fov:
  "findall (insert_fov spaces) tag_RelativePanTiltTranslationSpace =
     findall spaces tag_RelativePanTiltTranslationSpace @ [fov_space]"
proof -
  have "tag fov_space = tag_RelativePanTiltTranslationSpace"
    by (simp add: fov_space_def)
  from filter_insert_after_last
         [of "\<lambda>child. tag child = tag_RelativePanTiltTranslationSpace" fov_space
             "children spaces", OF this]
  show ?thesis
    by (simp add: findall_def insert_fov_def Let_def)
qed

lemma fov_scan_fov_space: "fov_scan [fov_space] = AlreadyExists"
  by (simp add: fov_space_def find_child_def leaf_def tag_URI_def)

lemma find_child_None_findall: "find_child e t = None \<longleftrightarrow> findall e t = []"
  by (auto simp: findall_def find_child_def find_None_iff filter_empty_conv)

lemma find_path_updated:
  "find_path (with_spaces_updated xroot) tag_Spaces =
     map_option insert_fov (find_path xroot tag_Spaces)"
  by (simp add: find_path_def descendants_def with_spaces_updated_def find_update_first)

lemma add_fov_of_spliced:
  assumes rt: "parse (serialize (with_spaces_updated xroot)) = Some (with_spaces_updated xroot)"
    and sp: "find_path xroot tag_Spaces = Some spaces"
    and nf: "fov_scan (findall spaces tag_RelativePanTiltTranslationSpace) = NotFound"
  shows "add_fov_to_config_options parse serialize (serialize (with_spaces_updated xroot)) =
           serialize (with_spaces_updated xroot)"
proof -
  have a: "find_path (with_spaces_updated xroot) tag_Spaces = Some (insert_fov spaces)"
    by (simp add: find_path_updated sp)
  have b: "find_child (insert_fov spaces) tag_RelativePanTiltTranslationSpace \<noteq> None"
    by (simp add: find_child_None_findall findall_insert_fov)
  have c: "fov_scan (findall (insert_fov spaces) tag_RelativePanTiltTranslationSpace) =
             AlreadyExists"
    by (simp only: findall_insert_fov fov_scan_append nf fov_scan_fov_space scan.case)
  from b obtain r where r: "find_child (insert_fov spaces) tag_RelativePanTiltTranslationSpace = Some r"
    by auto
  show ?thesis
    by (simp add: add_fov_to_config_options_def rt a r c)
qed

lemma fov_scan_NotFound: "fov_scan xs = NotFound \<Longrightarrow> \<forall>s \<in> set xs. \<not> has_fov_uri s"
  by (induction xs) (auto simp: has_fov_uri_def split: option.splits if_splits)

text \<open>
  Claim C7. The capability splicer is idempotent: splicing its own output returns that
  output. The XML library is a parameter, and what is used of it is that a document it
  serialised parses back to the tree that was serialised. The second half of the claim
  holds for every library: when a \<open>RelativePanTiltTranslationSpace\<close> child of the
  \<open>Spaces\<close> element found has a \<open>URI\<close> whose text contains \<open>TranslationSpaceFov\<close>,
  the input is returned unchanged.
\<close>

theorem add_fov_idempotent:
  "((\<forall>t. parse (serialize t) = Some t) \<longrightarrow>
      add_fov_to_config_options parse serialize (add_fov_to_config_options parse serialize x) =
        add_fov_to_config_options parse serialize x) \<and>
   (parse x = Some xroot \<and> find_path xroot tag_Spaces = Some spaces \<and>
    (\<exists>s \<in> set (findall spaces tag_RelativePanTiltTranslationSpace). has_fov_uri s) \<longrightarrow>
      add_fov_to_config_options parse serialize x = x)"
proof (intro conjI impI)
  assume rt: "\<forall>t. parse (serialize t) = Some t"
  show "add_fov_to_config_options parse serialize (add_fov_to_config_options parse serialize x) =
        add_fov_to_config_options parse serialize x"
  proof (cases "add_fov_to_config_options parse serialize x = x")
    case True
    then show ?thesis by simp
  next
    case False
    then obtain r sp where p: "parse x = Some r" and s: "find_path r tag_Spaces = Some sp"
      and n: "fov_scan (findall sp tag_RelativePanTiltTranslationSpace) = NotFound"
      and y: "add_fov_to_config_options parse serialize x = serialize (with_spaces_updated r)"
      by (auto simp: add_fov_to_config_options_def split: option.splits scan.splits)
    from rt have "parse (serialize (with_spaces_updated r)) = Some (with_spaces_updated r)"
      by simp
    from add_fov_of_spliced [of parse serialize r sp, OF this s n] show ?thesis
      by (simp add: y)
  qed
next
  assume a: "parse x = Some xroot \<and> find_path xroot tag_Spaces = Some spaces \<and>
    (\<exists>s \<in> set (findall spaces tag_RelativePanTiltTranslationSpace). has_fov_uri s)"
  then have "fov_scan (findall spaces tag_RelativePanTiltTranslationSpace) \<noteq> NotFound"
    using fov_scan_NotFound by blast
  with a show "add_fov_to_config_options parse serialize x = x"
    by (auto simp: add_fov_to_config_options_def split: option.splits scan.splits)
qed

lemma ex_roundtrip: "\<forall>t. ex_parse (ex_serialize t) = Some t"
  by (simp add: ex_parse_def ex_serialize_def)

lemma ex_spliced:
  "add_fov_to_config_options ex_parse ex_serialize (ex_serialize (ex_options [ex_generic_space])) =
     ex_serialize (ex_options [ex_generic_space, fov_space])"
proof -
  have p: "ex_parse (ex_serialize (ex_options [ex_generic_space])) = Some (ex_options [ex_generic_space])"
    using ex_roundtrip by simp
  have s: "find_path (ex_options [ex_generic_space]) tag_Spaces =
             Some (Element tag_Spaces [] None [ex_generic_space] None)"
    by (simp add: find_path_def descendants_def ex_options_def tag_Spaces_def clark_def
                  ns_soap12_def ns_tt_def)
  have c: "find_child (Element tag_Spaces [] None [ex_generic_space] None)
             tag_RelativePanTiltTranslationSpace = Some ex_generic_space"
    by (simp add: find_child_def ex_generic_space_def)
  have n: "fov_scan (findall (Element tag_Spaces [] None [ex_generic_space] None)
             tag_RelativePanTiltTranslationSpace) = NotFound"
    by (simp add: findall_def ex_generic_space_def find_child_def leaf_def tag_URI_def)
  have u: "with_spaces_updated (ex_options [ex_generic_space]) =
             ex_options [ex_generic_space, fov_space]"
    by (simp add: with_spaces_updated_def ex_options_def tag_Spaces_def clark_def ns_soap12_def
                  ns_tt_def insert_fov_def Let_def list_insert_def ex_generic_space_def
                  tag_RelativePanTiltTranslationSpace_def)
  show ?thesis
    by (simp add: add_fov_to_config_options_def p s c n u)
qed

theorem add_fov_idempotent_witness:
  "add_fov_to_config_options ex_parse ex_serialize
     (add_fov_to_config_options ex_parse ex_serialize
        (ex_serialize (ex_options [ex_generic_space]))) =
     ex_serialize (ex_options [ex_generic_space, fov_space]) \<and>
   add_fov_to_config_options ex_parse ex_serialize
     (ex_serialize (ex_options [ex_generic_space, fov_space])) =
     ex_serialize (ex_options [ex_generic_space, fov_space])"
proof -
  have p: "ex_parse (ex_serialize (ex_options [ex_generic_space, fov_space])) =
             Some (ex_options [ex_generic_space, fov_space])"
    using ex_roundtrip by simp
  have s: "find_path (ex_options [ex_generic_space, fov_space]) tag_Spaces =
             Some (Element tag_Spaces [] None [ex_generic_space, fov_space] None)"
    by (simp add: find_path_def descendants_def ex_options_def tag_Spaces_def clark_def
                  ns_soap12_def ns_tt_def)
  have h: "\<exists>s \<in> set (findall (Element tag_Spaces [] None [ex_generic_space, fov_space] None)
                         tag_RelativePanTiltTranslationSpace). has_fov_uri s"
    by (simp add: findall_def has_fov_uri_def fov_space_def find_child_def leaf_def tag_URI_def)
  note t1 = add_fov_idempotent
              [of ex_parse ex_serialize "ex_serialize (ex_options [ex_generic_space])"
                  "ex_options [ex_generic_space]" "Element tag_Spaces [] None [] None"]
  note t2 = add_fov_idempotent
              [of ex_parse ex_serialize "ex_serialize (ex_options [ex_generic_space, fov_space])"
                  "ex_options [ex_generic_space, fov_space]"
                  "Element tag_Spaces [] None [ex_generic_space, fov_space] None"]
  from t1 ex_roundtrip have a: "add_fov_to_config_options ex_parse ex_serialize
     (add_fov_to_config_options ex_parse ex_serialize
        (ex_serialize (ex_options [ex_generic_space]))) =
     add_fov_to_config_options ex_parse ex_serialize (ex_serialize (ex_options [ex_generic_space]))"
    by blast
  from t2 p s h have b: "add_fov_to_config_options ex_parse ex_serialize
     (ex_serialize (ex_options [ex_generic_space, fov_space])) =
     ex_serialize (ex_options [ex_generic_space, fov_space])"
    by blast
  from a b show ?thesis by (simp add: ex_spliced)
qed


section \<open>Camera forwarder: failures\<close>

lemma timeout_fault_shape: "timeout_fault = receiver_fault ''Request timeout''"
  by (simp add: timeout_fault_def receiver_fault_def fault_before_code_def
                fault_code_to_reason_def fault_after_reason_def)

lemma connection_fault_shape: "connection_fault = receiver_fault ''Connection error to camera''"
  by (simp add: connection_fault_def receiver_fault_def fault_before_code_def
                fault_code_to_reason_def fault_after_reason_def)

lemma generic_fault_shape: "generic_fault message = receiver_fault message"
  by (simp add: generic_fault_def receiver_fault_def fault_before_code_def
                fault_code_to_reason_def fault_after_reason_def)

lemma after_first_length: "after_first m s = Some r \<Longrightarrow> length m \<le> length s"
  by (induction s) (auto split: if_splits dest: prefix_length_le)

lemma after_first_append:
  "after_first m s = Some r \<Longrightarrow> after_first m (s @ t) = Some (r @ t)"
proof (induction s)
  case Nil
  then show ?case by (cases t) (auto split: if_splits)
next
  case (Cons c cs)
  show ?case
  proof (cases "prefix m (c # cs)")
    case True
    then obtain zs where zs: "c # cs = m @ zs" by (auto elim: prefixE)
    have "c # (cs @ t) = (c # cs) @ t" by simp
    also have "\<dots> = (m @ zs) @ t" by (simp only: zs)
    finally have e: "c # (cs @ t) = m @ (zs @ t)" by simp
    have p: "prefix m (c # (cs @ t))" unfolding e by simp
    have d: "drop (length m) (c # (cs @ t)) = zs @ t" unfolding e by simp
    have d0: "drop (length m) (c # cs) = zs" unfolding zs by simp
    from Cons.prems True have "Some (drop (length m) (c # cs)) = Some r"
      by (simp only: after_first.simps if_True)
    then have r: "r = zs" unfolding d0 by simp
    have "after_first m (c # (cs @ t)) = Some (drop (length m) (c # (cs @ t)))"
      using p by (simp only: after_first.simps if_True)
    then show ?thesis unfolding d r by simp
  next
    case False
    with Cons.prems have a: "after_first m cs = Some r" by simp
    from after_first_length [OF a] have l: "length m \<le> length (c # cs)" by simp
    have "\<not> prefix m ((c # cs) @ t)"
    proof
      assume "prefix m ((c # cs) @ t)"
      with l have "prefix m (c # cs)"
        by (metis prefix_length_prefix prefixI)
      with False show False by simp
    qed
    with Cons.IH [OF a] show ?thesis by simp
  qed
qed

lemma after_value_tag: "after_first ''<SOAP-ENV:Value>'' fault_before_code = Some []"
  by code_simp

lemma after_text_tag:
  \<open>after_first ''<SOAP-ENV:Text xml:lang="en">'' (fault_before_code @ fault_code_to_reason) = Some []\<close>
  by code_simp

lemma receiver_fault_code: "fault_code_value (receiver_fault reason) = Some ''SOAP-ENV:Receiver''"
proof -
  from after_first_append [OF after_value_tag, of "fault_code_to_reason @ reason @ fault_after_reason"]
  show ?thesis
    by (simp add: fault_code_value_def element_text_def receiver_fault_def)
       (simp add: fault_code_to_reason_def)
qed

lemma receiver_fault_reason:
  "fault_reason_text (receiver_fault reason) = Some (takeWhile (\<lambda>c. c \<noteq> CHR ''<'') reason)"
proof -
  have t: "takeWhile (\<lambda>c. c \<noteq> CHR ''<'') (reason @ fault_after_reason) =
           takeWhile (\<lambda>c. c \<noteq> CHR ''<'') reason"
  proof (cases "\<forall>x \<in> set reason. x \<noteq> CHR ''<''")
    case True
    then have a: "takeWhile (\<lambda>c. c \<noteq> CHR ''<'') reason = reason"
      by (simp add: takeWhile_eq_all_conv)
    have b: "takeWhile (\<lambda>c. c \<noteq> CHR ''<'') fault_after_reason = []"
      by (simp add: fault_after_reason_def)
    have c: "takeWhile (\<lambda>c. c \<noteq> CHR ''<'') (reason @ fault_after_reason) =
             reason @ takeWhile (\<lambda>c. c \<noteq> CHR ''<'') fault_after_reason"
      by (rule takeWhile_append2) (use True in blast)
    show ?thesis by (simp only: a b c append_Nil2)
  next
    case False
    then obtain x where "x \<in> set reason" "\<not> x \<noteq> CHR ''<''" by blast
    then show ?thesis by (rule takeWhile_append1)
  qed
  from after_first_append [OF after_text_tag, of "reason @ fault_after_reason"]
  show ?thesis
    by (simp add: fault_reason_text_def element_text_def receiver_fault_def t)
qed

text \<open>
  Claim C6. When the POST to the camera raises, the forwarder answers with status 500
  and a fault: the timeout fault for a timeout, the connection fault for a connection
  error, and for any other exception the generic fault, in which the exception's message
  stands between the tags of \<open>Reason/Text\<close>. Read back, the reason of the first is
  \<open>Request timeout\<close>, of the second \<open>Connection error to camera\<close>, of the third the
  message itself (as far as it contains no \<open><\<close>, which would end the text), and the
  \<open>Code/Value\<close> of all three is \<open>SOAP-ENV:Receiver\<close>.
\<close>

theorem forward_request_failures:
  "(post (service_url px service) (rewrite_request px soap_body) = TimedOut \<longrightarrow>
      forward_request px post service soap_body = (timeout_fault, 500)) \<and>
   (post (service_url px service) (rewrite_request px soap_body) = ConnectionFailed err \<longrightarrow>
      forward_request px post service soap_body = (connection_fault, 500)) \<and>
   (post (service_url px service) (rewrite_request px soap_body) = OtherException message \<longrightarrow>
      forward_request px post service soap_body = (generic_fault message, 500)) \<and>
   fault_reason_text timeout_fault = Some ''Request timeout'' \<and>
   fault_code_value timeout_fault = Some ''SOAP-ENV:Receiver'' \<and>
   fault_reason_text connection_fault = Some ''Connection error to camera'' \<and>
   fault_code_value connection_fault = Some ''SOAP-ENV:Receiver'' \<and>
   generic_fault message = receiver_fault message \<and>
   (CHR ''<'' \<notin> set message \<longrightarrow> fault_reason_text (generic_fault message) = Some message) \<and>
   fault_code_value (generic_fault message) = Some ''SOAP-ENV:Receiver''"
proof (intro conjI impI)
  assume "post (service_url px service) (rewrite_request px soap_body) = TimedOut"
  then show "forward_request px post service soap_body = (timeout_fault, 500)"
    by (simp add: forward_request_def)
next
  assume "post (service_url px service) (rewrite_request px soap_body) = ConnectionFailed err"
  then show "forward_request px post service soap_body = (connection_fault, 500)"
    by (simp add: forward_request_def)
next
  assume "post (service_url px service) (rewrite_request px soap_body) = OtherException message"
  then show "forward_request px post service soap_body = (generic_fault message, 500)"
    by (simp add: forward_request_def)
next
  show "fault_reason_text timeout_fault = Some ''Request timeout''"
    by (simp add: timeout_fault_shape receiver_fault_reason)
  show "fault_code_value timeout_fault = Some ''SOAP-ENV:Receiver''"
    by (simp only: timeout_fault_shape receiver_fault_code)
  show "fault_reason_text connection_fault = Some ''Connection error to camera''"
    by (simp add: connection_fault_shape receiver_fault_reason)
  show "fault_code_value connection_fault = Some ''SOAP-ENV:Receiver''"
    by (simp only: connection_fault_shape receiver_fault_code)
  show "generic_fault message = receiver_fault message"
    by (rule generic_fault_shape)
  show "fault_code_value (generic_fault message) = Some ''SOAP-ENV:Receiver''"
    by (simp only: generic_fault_shape receiver_fault_code)
next
  assume "CHR ''<'' \<notin> set message"
  then have "takeWhile (\<lambda>c. c \<noteq> CHR ''<'') message = message"
    by (auto simp: takeWhile_eq_all_conv)
  then show "fault_reason_text (generic_fault message) = Some message"
    by (simp add: generic_fault_shape receiver_fault_reason)
qed

theorem forward_request_failures_witness:
  "forward_request ex_px ex_post_timeout ''ptz_service'' ''<a/>'' = (timeout_fault, 500) \<and>
   forward_request ex_px ex_post_refused ''ptz_service'' ''<a/>'' = (connection_fault, 500) \<and>
   forward_request ex_px ex_post_broken ''ptz_service'' ''<a/>'' =
     (generic_fault ''Invalid URL'', 500) \<and>
   fault_reason_text (generic_fault ''Invalid URL'') = Some ''Invalid URL''"
proof -
  note t1 = forward_request_failures
              [of ex_post_timeout ex_px "''ptz_service''" "''<a/>''" "''Connection refused''"
                  "''Invalid URL''"]
  note t2 = forward_request_failures
              [of ex_post_refused ex_px "''ptz_service''" "''<a/>''" "''Connection refused''"
                  "''Invalid URL''"]
  note t3 = forward_request_failures
              [of ex_post_broken ex_px "''ptz_service''" "''<a/>''" "''Connection refused''"
                  "''Invalid URL''"]
  have n: "CHR ''<'' \<notin> set ''Invalid URL''" by simp
  have h1: "ex_post_timeout (service_url ex_px ''ptz_service'') (rewrite_request ex_px ''<a/>'') =
              TimedOut"
    by (simp add: ex_post_timeout_def)
  have h2: "ex_post_refused (service_url ex_px ''ptz_service'') (rewrite_request ex_px ''<a/>'') =
              ConnectionFailed ''Connection refused''"
    by (simp add: ex_post_refused_def)
  have h3: "ex_post_broken (service_url ex_px ''ptz_service'') (rewrite_request ex_px ''<a/>'') =
              OtherException ''Invalid URL''"
    by (simp add: ex_post_broken_def)
  from t1 h1 have a: "forward_request ex_px ex_post_timeout ''ptz_service'' ''<a/>'' =
      (timeout_fault, 500)"
    by blast
  from t2 h2 have b: "forward_request ex_px ex_post_refused ''ptz_service'' ''<a/>'' =
      (connection_fault, 500)"
    by blast
  from t3 h3 n have c: "forward_request ex_px ex_post_broken ''ptz_service'' ''<a/>'' =
      (generic_fault ''Invalid URL'', 500) \<and>
      fault_reason_text (generic_fault ''Invalid URL'') = Some ''Invalid URL''"
    by blast
  from a b c show ?thesis by simp
qed


section \<open>Address rewriter\<close>

lemma str_in_Nil [simp]: "str_in [] s"
  by (cases s) simp_all

lemma replace_from_absent: "\<not> str_in old s \<Longrightarrow> replace_from old new s = s"
  by (induction s) auto

lemma py_replace_absent: "\<not> str_in old s \<Longrightarrow> py_replace old new s = s"
  by (cases "old = []") (auto simp: py_replace_def replace_from_absent)

lemma ex_str_8000: "str_int 8000 = ''8000''"
  by (simp add: str_int_def digits.simps digit_char_def)

lemma ex_str_8080: "str_int 8080 = ''8080''"
  by (simp add: str_int_def digits.simps digit_char_def)

lemma ex_request_rewritten:
  "rewrite_request ex_px ex_payload = ''<a>http://192.168.1.10:8080/onvif/</a>''"
  by (simp add: rewrite_request_def ex_px_def ex_payload_def py_replace_def
                ex_str_8000 ex_str_8080)

lemma ex_round_trip:
  "rewrite_response ex_px ''<a>http://192.168.1.10:8080/onvif/</a>'' = ex_payload"
  by (simp add: rewrite_response_def ex_px_def ex_payload_def py_replace_def
                ex_str_8000 ex_str_8080)

text \<open>
  Claim C8, as the specification states it, fails on the code: \<open>rewrite_response\<close> puts
  the proxy's host and port in the place of the camera's, so after \<open>rewrite_request\<close>,
  which did the opposite, the references to the proxy are back. The payload below holds
  the proxy's address and nothing of the camera's; the round trip returns it as it was,
  with the proxy's host and port in it.
\<close>

theorem rewrite_round_trip_keeps_proxy:
  "\<not> str_in (camera_ip ex_px) ex_payload \<and>
   rewrite_request ex_px ex_payload = ''<a>http://192.168.1.10:8080/onvif/</a>'' \<and>
   rewrite_response ex_px (rewrite_request ex_px ex_payload) = ex_payload \<and>
   str_in (proxy_host ex_px) (rewrite_response ex_px (rewrite_request ex_px ex_payload)) \<and>
   str_in ('':'' @ str_int (proxy_port ex_px) @ ''/'')
          (rewrite_response ex_px (rewrite_request ex_px ex_payload))"
proof -
  have a: "\<not> str_in (camera_ip ex_px) ex_payload"
    by (simp add: ex_px_def ex_payload_def)
  have b: "str_in (proxy_host ex_px) ex_payload"
    by (simp add: ex_px_def ex_payload_def)
  have c: "str_in ('':'' @ str_int (proxy_port ex_px) @ ''/'') ex_payload"
    by (simp add: ex_px_def ex_payload_def ex_str_8000)
  show ?thesis
    by (simp only: ex_request_rewritten ex_round_trip a b c simp_thms)
qed

lemma prefix_long: "length old \<le> length xs \<Longrightarrow> prefix old (xs @ ys) = prefix old xs"
  by (metis prefix_length_prefix prefix_prefix prefixI)

lemma replace_from_same: "replace_from old old s = s"
proof (induction s rule: length_induct)
  case (1 s)
  show ?case
  proof (cases s)
    case Nil
    then show ?thesis by simp
  next
    case (Cons c cs)
    show ?thesis
    proof (cases "old \<noteq> [] \<and> prefix old (c # cs)")
      case True
      then obtain zs where zs: "c # cs = old @ zs" by (auto elim: prefixE)
      have d: "drop (length old) (c # cs) = zs" unfolding zs by simp
      have "length zs < length s"
        using True zs Cons by (metis append_eq_conv_conj length_drop length_greater_0_conv
                                       diff_less length_Cons zero_less_Suc)
      with 1 have i: "replace_from old old zs = zs" by blast
      have "replace_from old old (c # cs) =
              old @ replace_from old old (drop (length old) (c # cs))"
        using True by simp
      then show ?thesis unfolding Cons by (metis d i zs)
    next
      case False
      have "length cs < length s" using Cons by simp
      with 1 have "replace_from old old cs = cs" by blast
      with False show ?thesis unfolding Cons by auto
    qed
  qed
qed

lemma py_replace_same: "py_replace old old s = s"
  by (cases "old = []") (simp_all add: py_replace_def replace_from_same)

lemma py_replace_inert: "inert old new s \<Longrightarrow> py_replace old new s = s"
  by (auto simp: inert_def py_replace_same py_replace_absent)

lemma replace_from_step:
  assumes "old \<noteq> []" and "\<not> str_in old (p @ butlast old)"
  shows "replace_from old new (p @ old @ rest) = p @ new @ replace_from old new rest"
  using assms(2)
proof (induction p)
  case Nil
  have "prefix old (old @ rest)" by simp
  moreover obtain c cs where o: "old @ rest = c # cs"
    using assms(1) by (cases old) auto
  ultimately have "replace_from old new (old @ rest) =
                     new @ replace_from old new (drop (length old) (old @ rest))"
    using assms(1) by (simp only: o replace_from.simps) simp
  then show ?case by simp
next
  case (Cons c p)
  from Cons.prems have np: "\<not> prefix old (c # (p @ butlast old))"
    and ns: "\<not> str_in old (p @ butlast old)"
    by simp_all
  have len: "length old \<le> length (c # (p @ butlast old))"
    using assms(1) by simp
  have e: "c # (p @ old @ rest) = (c # (p @ butlast old)) @ ([last old] @ rest)"
    using assms(1) by simp
  have "\<not> prefix old (c # (p @ old @ rest))"
    unfolding e using np prefix_long [OF len] by blast
  then have "replace_from old new (c # (p @ old @ rest)) =
               c # replace_from old new (p @ old @ rest)"
    by simp
  with Cons.IH [OF ns] show ?case by simp
qed

lemma replace_from_join:
  "old \<noteq> [] \<Longrightarrow> clean_parts old parts \<Longrightarrow>
   replace_from old new (str_join old parts) = str_join new parts"
proof (induction old parts rule: clean_parts.induct)
  case (1 old)
  then show ?case by simp
next
  case (2 old p)
  then show ?case by (simp add: replace_from_absent)
next
  case (3 old p q ps)
  then show ?case by (simp add: replace_from_step)
qed

lemma py_replace_join:
  "old \<noteq> [] \<Longrightarrow> clean_parts old parts \<Longrightarrow>
   py_replace old new (str_join old parts) = str_join new parts"
  by (simp add: py_replace_def replace_from_join)

lemma str_in_length: "str_in old s \<Longrightarrow> length old \<le> length s"
  by (induction s) (auto dest: prefix_length_le)

lemma not_in_butlast: "old \<noteq> [] \<Longrightarrow> \<not> str_in old (butlast old)"
proof
  assume n: "old \<noteq> []" and i: "str_in old (butlast old)"
  from n obtain xs x where o: "old = xs @ [x]" by (cases old rule: rev_cases) auto
  from i have "length old \<le> length (butlast old)" by (rule str_in_length)
  then show False unfolding o by simp
qed

lemma py_split_nonempty: "py_split old s \<noteq> []"
  by (induction old s rule: py_split.induct) (auto split: list.splits)

lemma join_push: "str_join old ((c # p) # ps) = c # str_join old (p # ps)"
  by (cases ps) simp_all

lemma join_split: "str_join old (py_split old s) = s"
proof (induction old s rule: py_split.induct)
  case (1 old)
  then show ?case by simp
next
  case (2 old c cs)
  show ?case
  proof (cases "old \<noteq> [] \<and> prefix old (c # cs)")
    case True
    then obtain zs where zs: "c # cs = old @ zs" by (auto elim: prefixE)
    have d: "drop (length old) (c # cs) = zs" unfolding zs by simp
    from 2(1) True have i: "str_join old (py_split old zs) = zs" unfolding d by simp
    obtain q qs where q: "py_split old zs = q # qs"
      using py_split_nonempty [of old zs] by (cases "py_split old zs") auto
    have "py_split old (c # cs) = [] # py_split old zs"
      using True d by simp
    then have "str_join old (py_split old (c # cs)) = old @ str_join old (py_split old zs)"
      by (simp add: q)
    then show ?thesis unfolding i zs .
  next
    case False
    obtain p ps where p: "py_split old cs = p # ps"
      using py_split_nonempty [of old cs] by (cases "py_split old cs") auto
    from 2(2) False have i: "str_join old (py_split old cs) = cs" by blast
    have "py_split old (c # cs) = (c # p) # ps"
      using False p by auto
    then show ?thesis using i by (simp only: join_push p)
  qed
qed

lemma clean_split: "old \<noteq> [] \<Longrightarrow> clean_parts old (py_split old s)"
proof (induction old s rule: py_split.induct)
  case (1 old)
  then show ?case by simp
next
  case (2 old c cs)
  show ?case
  proof (cases "prefix old (c # cs)")
    case True
    then obtain zs where zs: "c # cs = old @ zs" by (auto elim: prefixE)
    have d: "drop (length old) (c # cs) = zs" unfolding zs by simp
    from 2(1) True 2(3) have i: "clean_parts old (py_split old zs)" unfolding d by simp
    obtain q qs where q: "py_split old zs = q # qs"
      using py_split_nonempty [of old zs] by (cases "py_split old zs") auto
    have "py_split old (c # cs) = [] # q # qs"
      using True d q 2(3) by simp
    then show ?thesis using i q not_in_butlast [OF 2(3)] by simp
  next
    case False
    obtain p ps where p: "py_split old cs = p # ps"
      using py_split_nonempty [of old cs] by (cases "py_split old cs") auto
    from 2(2) False 2(3) have i: "clean_parts old (p # ps)" unfolding p [symmetric] by blast
    have j: "str_join old (p # ps) = cs" using join_split [of old cs] unfolding p .
    have r: "py_split old (c # cs) = (c # p) # ps"
      using False p by auto
    show ?thesis
    proof (cases ps)
      case Nil
      with j have "p = cs" by simp
      with i Nil False have "\<not> str_in old (c # p)" by simp
      then show ?thesis unfolding r Nil by simp
    next
      case (Cons q qs)
      from i Cons have a: "\<not> str_in old (p @ butlast old)" and b: "clean_parts old (q # qs)"
        by simp_all
      have len: "length old \<le> length (c # (p @ butlast old))"
        using 2(3) by simp
      have e: "c # (p @ old @ str_join old (q # qs)) =
                 (c # (p @ butlast old)) @ ([last old] @ str_join old (q # qs))"
        using 2(3) by simp
      have "c # cs = c # (p @ old @ str_join old (q # qs))"
        using j Cons by simp
      with False have "\<not> prefix old (c # (p @ old @ str_join old (q # qs)))"
        by simp
      then have "\<not> prefix old ((c # (p @ butlast old)) @ ([last old] @ str_join old (q # qs)))"
        unfolding e .
      then have "\<not> prefix old (c # (p @ butlast old))"
        using prefix_long [OF len] by blast
      with a have "\<not> str_in old ((c # p) @ butlast old)" by simp
      with b show ?thesis unfolding r Cons by simp
    qed
  qed
qed

lemma port_token_nonempty [simp]: "port_token n c \<noteq> []"
  by (simp add: port_token_def)

lemma rewrite_request_steps:
  "rewrite_request px x =
     py_replace (port_token (proxy_port px) (CHR ''<'')) (port_token (camera_port px) (CHR ''<''))
       (py_replace (port_token (proxy_port px) (CHR ''/'')) (port_token (camera_port px) (CHR ''/''))
          (py_replace (proxy_host px) (camera_ip px) x))"
  by (simp add: rewrite_request_def port_token_def Let_def)

lemma rewrite_response_steps:
  "rewrite_response px y =
     py_replace (port_token (camera_port px) (CHR ''<'')) (port_token (proxy_port px) (CHR ''<''))
       (py_replace (port_token (camera_port px) (CHR ''/'')) (port_token (proxy_port px) (CHR ''/''))
          (py_replace (camera_ip px) (proxy_host px) y))"
  by (simp add: rewrite_response_def port_token_def Let_def)

lemma replace_chain:
  assumes "o1 \<noteq> []" "o2 \<noteq> []" "o3 \<noteq> []"
    and "clean_parts o1 hs" "clean_parts o2 ss" "clean_parts o3 ls"
    and "x = str_join o1 hs"
    and "str_join n1 hs = str_join o2 ss"
    and "str_join n2 ss = str_join o3 ls"
  shows "py_replace o3 n3 (py_replace o2 n2 (py_replace o1 n1 x)) = str_join n3 ls"
proof -
  have "py_replace o1 n1 x = str_join o2 ss"
    using assms(1,4,7,8) by (simp add: py_replace_join)
  then have "py_replace o2 n2 (py_replace o1 n1 x) = str_join o3 ls"
    using assms(2,5,9) by (simp add: py_replace_join)
  then show ?thesis
    using assms(3,6) by (simp add: py_replace_join)
qed

lemma ex_tokens:
  "port_token 8000 c = '':8000'' @ [c]" "port_token 8080 c = '':8080'' @ [c]"
  by (simp_all add: port_token_def ex_str_8000 ex_str_8080)

text \<open>
  Claim C8, amended. \<open>rewrite_request\<close> substitutes: it replaces the occurrences of the
  proxy's host by the camera's host, then those of \<open>:<proxy_port>/\<close> by
  \<open>:<camera_port>/\<close>, then those of \<open>:<proxy_port><\<close> by \<open>:<camera_port><\<close>. Written
  with the cuts of the payload around the tokens: if the payload is \<open>hs\<close> joined by the
  proxy's host, if \<open>hs\<close> joined by the camera's host is \<open>ss\<close> joined by
  \<open>:<proxy_port>/\<close>, and if \<open>ss\<close> joined by \<open>:<camera_port>/\<close> is \<open>ls\<close> joined by
  \<open>:<proxy_port><\<close>, then the result is \<open>ls\<close> joined by \<open>:<camera_port><\<close>.
  \<open>rewrite_response\<close> does the same with the camera's and the proxy's tokens exchanged.
  Every string has such a cut around every non-empty token, the one \<open>py_split\<close> computes.
  The round trip therefore restores the references to the proxy instead of removing
  them: for a payload cut by the proxy's host into parts that the camera's host cuts
  too, and whose port tokens the rewriter has nothing to change in, \<open>rewrite_request\<close>
  gives the parts joined by the camera's host and \<open>rewrite_response\<close> of that gives the
  payload back. A payload in which each of the three proxy tokens is absent or equal to
  the camera's token is unchanged by \<open>rewrite_request\<close>, and a payload in which each of
  the three camera tokens is absent or equal to the proxy's token is unchanged by
  \<open>rewrite_response\<close>.
\<close>

theorem rewrite_substitutes:
  "(proxy_host px \<noteq> [] \<and>
    clean_parts (proxy_host px) hs \<and>
    clean_parts (port_token (proxy_port px) (CHR ''/'')) ss \<and>
    clean_parts (port_token (proxy_port px) (CHR ''<'')) ls \<and>
    x = str_join (proxy_host px) hs \<and>
    str_join (camera_ip px) hs = str_join (port_token (proxy_port px) (CHR ''/'')) ss \<and>
    str_join (port_token (camera_port px) (CHR ''/'')) ss =
      str_join (port_token (proxy_port px) (CHR ''<'')) ls \<longrightarrow>
      rewrite_request px x = str_join (port_token (camera_port px) (CHR ''<'')) ls) \<and>
   (camera_ip px \<noteq> [] \<and>
    clean_parts (camera_ip px) hr \<and>
    clean_parts (port_token (camera_port px) (CHR ''/'')) sr \<and>
    clean_parts (port_token (camera_port px) (CHR ''<'')) lr \<and>
    y = str_join (camera_ip px) hr \<and>
    str_join (proxy_host px) hr = str_join (port_token (camera_port px) (CHR ''/'')) sr \<and>
    str_join (port_token (proxy_port px) (CHR ''/'')) sr =
      str_join (port_token (camera_port px) (CHR ''<'')) lr \<longrightarrow>
      rewrite_response px y = str_join (port_token (proxy_port px) (CHR ''<'')) lr) \<and>
   (old \<noteq> [] \<longrightarrow> clean_parts old (py_split old s) \<and> str_join old (py_split old s) = s) \<and>
   (proxy_host px \<noteq> [] \<and> camera_ip px \<noteq> [] \<and>
    clean_parts (proxy_host px) ps \<and> clean_parts (camera_ip px) ps \<and>
    inert (port_token (proxy_port px) (CHR ''/'')) (port_token (camera_port px) (CHR ''/''))
          (str_join (camera_ip px) ps) \<and>
    inert (port_token (proxy_port px) (CHR ''<'')) (port_token (camera_port px) (CHR ''<''))
          (str_join (camera_ip px) ps) \<and>
    inert (port_token (camera_port px) (CHR ''/'')) (port_token (proxy_port px) (CHR ''/''))
          (str_join (proxy_host px) ps) \<and>
    inert (port_token (camera_port px) (CHR ''<'')) (port_token (proxy_port px) (CHR ''<''))
          (str_join (proxy_host px) ps) \<longrightarrow>
      rewrite_request px (str_join (proxy_host px) ps) = str_join (camera_ip px) ps \<and>
      rewrite_response px (rewrite_request px (str_join (proxy_host px) ps)) =
        str_join (proxy_host px) ps) \<and>
   (inert (proxy_host px) (camera_ip px) z \<and>
    inert (port_token (proxy_port px) (CHR ''/'')) (port_token (camera_port px) (CHR ''/'')) z \<and>
    inert (port_token (proxy_port px) (CHR ''<'')) (port_token (camera_port px) (CHR ''<'')) z \<longrightarrow>
      rewrite_request px z = z) \<and>
   (inert (camera_ip px) (proxy_host px) w \<and>
    inert (port_token (camera_port px) (CHR ''/'')) (port_token (proxy_port px) (CHR ''/'')) w \<and>
    inert (port_token (camera_port px) (CHR ''<'')) (port_token (proxy_port px) (CHR ''<'')) w \<longrightarrow>
      rewrite_response px w = w)"
proof (intro conjI impI)
  assume "proxy_host px \<noteq> [] \<and>
    clean_parts (proxy_host px) hs \<and>
    clean_parts (port_token (proxy_port px) (CHR ''/'')) ss \<and>
    clean_parts (port_token (proxy_port px) (CHR ''<'')) ls \<and>
    x = str_join (proxy_host px) hs \<and>
    str_join (camera_ip px) hs = str_join (port_token (proxy_port px) (CHR ''/'')) ss \<and>
    str_join (port_token (camera_port px) (CHR ''/'')) ss =
      str_join (port_token (proxy_port px) (CHR ''<'')) ls"
  then show "rewrite_request px x = str_join (port_token (camera_port px) (CHR ''<'')) ls"
    unfolding rewrite_request_steps
    by (intro replace_chain [where hs = hs and ss = ss and ls = ls]) simp_all
next
  assume "camera_ip px \<noteq> [] \<and>
    clean_parts (camera_ip px) hr \<and>
    clean_parts (port_token (camera_port px) (CHR ''/'')) sr \<and>
    clean_parts (port_token (camera_port px) (CHR ''<'')) lr \<and>
    y = str_join (camera_ip px) hr \<and>
    str_join (proxy_host px) hr = str_join (port_token (camera_port px) (CHR ''/'')) sr \<and>
    str_join (port_token (proxy_port px) (CHR ''/'')) sr =
      str_join (port_token (camera_port px) (CHR ''<'')) lr"
  then show "rewrite_response px y = str_join (port_token (proxy_port px) (CHR ''<'')) lr"
    unfolding rewrite_response_steps
    by (intro replace_chain [where hs = hr and ss = sr and ls = lr]) simp_all
next
  assume "old \<noteq> []"
  then show "clean_parts old (py_split old s)" by (rule clean_split)
next
  show "str_join old (py_split old s) = s" by (rule join_split)
next
  assume a: "proxy_host px \<noteq> [] \<and> camera_ip px \<noteq> [] \<and>
    clean_parts (proxy_host px) ps \<and> clean_parts (camera_ip px) ps \<and>
    inert (port_token (proxy_port px) (CHR ''/'')) (port_token (camera_port px) (CHR ''/''))
          (str_join (camera_ip px) ps) \<and>
    inert (port_token (proxy_port px) (CHR ''<'')) (port_token (camera_port px) (CHR ''<''))
          (str_join (camera_ip px) ps) \<and>
    inert (port_token (camera_port px) (CHR ''/'')) (port_token (proxy_port px) (CHR ''/''))
          (str_join (proxy_host px) ps) \<and>
    inert (port_token (camera_port px) (CHR ''<'')) (port_token (proxy_port px) (CHR ''<''))
          (str_join (proxy_host px) ps)"
  then show r: "rewrite_request px (str_join (proxy_host px) ps) = str_join (camera_ip px) ps"
    by (simp add: rewrite_request_steps py_replace_join py_replace_inert)
  from a show "rewrite_response px (rewrite_request px (str_join (proxy_host px) ps)) =
        str_join (proxy_host px) ps"
    unfolding r by (simp add: rewrite_response_steps py_replace_join py_replace_inert)
next
  assume "inert (proxy_host px) (camera_ip px) z \<and>
    inert (port_token (proxy_port px) (CHR ''/'')) (port_token (camera_port px) (CHR ''/'')) z \<and>
    inert (port_token (proxy_port px) (CHR ''<'')) (port_token (camera_port px) (CHR ''<'')) z"
  then show "rewrite_request px z = z"
    by (simp add: rewrite_request_steps py_replace_inert)
next
  assume "inert (camera_ip px) (proxy_host px) w \<and>
    inert (port_token (camera_port px) (CHR ''/'')) (port_token (proxy_port px) (CHR ''/'')) w \<and>
    inert (port_token (camera_port px) (CHR ''<'')) (port_token (proxy_port px) (CHR ''<'')) w"
  then show "rewrite_response px w = w"
    by (simp add: rewrite_response_steps py_replace_inert)
qed

theorem rewrite_substitutes_witness:
  "rewrite_request ex_px ex_payload = ''<a>http://192.168.1.10:8080/onvif/</a>'' \<and>
   rewrite_response ex_px ''<a>http://192.168.1.10:8080/onvif/</a>'' = ex_payload \<and>
   py_split ''127.0.0.1'' ex_payload = [''<a>http://'', '':8000/onvif/</a>''] \<and>
   clean_parts ''127.0.0.1'' (py_split ''127.0.0.1'' ex_payload) \<and>
   str_join ''127.0.0.1'' (py_split ''127.0.0.1'' ex_payload) = ex_payload \<and>
   rewrite_request ex_px_same ex_payload = ''<a>http://192.168.1.10:8000/onvif/</a>'' \<and>
   rewrite_response ex_px_same (rewrite_request ex_px_same ex_payload) = ex_payload \<and>
   rewrite_request ex_px_same ''<a>http://192.168.1.10:8000/onvif/</a>'' =
     ''<a>http://192.168.1.10:8000/onvif/</a>'' \<and>
   rewrite_response ex_px ex_payload = ex_payload"
proof -
  note t1 = rewrite_substitutes
    [where px = ex_px and x = ex_payload
       and hs = "[''<a>http://'', '':8000/onvif/</a>'']"
       and ss = "[''<a>http://192.168.1.10'', ''onvif/</a>'']"
       and ls = "[''<a>http://192.168.1.10:8080/onvif/</a>'']"
       and y = "''<a>http://192.168.1.10:8080/onvif/</a>''"
       and hr = "[''<a>http://'', '':8080/onvif/</a>'']"
       and sr = "[''<a>http://127.0.0.1'', ''onvif/</a>'']"
       and lr = "[''<a>http://127.0.0.1:8000/onvif/</a>'']"
       and old = "''127.0.0.1''" and s = ex_payload
       and w = ex_payload]
  note t2 = rewrite_substitutes
    [where px = ex_px_same
       and ps = "[''<a>http://'', '':8000/onvif/</a>'']"
       and z = "''<a>http://192.168.1.10:8000/onvif/</a>''"]
  have px: "proxy_host ex_px = ''127.0.0.1''" "camera_ip ex_px = ''192.168.1.10''"
    "proxy_port ex_px = 8000" "camera_port ex_px = 8080"
    by (simp_all add: ex_px_def)
  have ps: "proxy_host ex_px_same = ''127.0.0.1''" "camera_ip ex_px_same = ''192.168.1.10''"
    "proxy_port ex_px_same = 8000" "camera_port ex_px_same = 8000"
    by (simp_all add: ex_px_same_def)
  have a1: "proxy_host ex_px \<noteq> [] \<and>
    clean_parts (proxy_host ex_px) [''<a>http://'', '':8000/onvif/</a>''] \<and>
    clean_parts (port_token (proxy_port ex_px) (CHR ''/''))
      [''<a>http://192.168.1.10'', ''onvif/</a>''] \<and>
    clean_parts (port_token (proxy_port ex_px) (CHR ''<''))
      [''<a>http://192.168.1.10:8080/onvif/</a>''] \<and>
    ex_payload = str_join (proxy_host ex_px) [''<a>http://'', '':8000/onvif/</a>''] \<and>
    str_join (camera_ip ex_px) [''<a>http://'', '':8000/onvif/</a>''] =
      str_join (port_token (proxy_port ex_px) (CHR ''/''))
        [''<a>http://192.168.1.10'', ''onvif/</a>''] \<and>
    str_join (port_token (camera_port ex_px) (CHR ''/''))
        [''<a>http://192.168.1.10'', ''onvif/</a>''] =
      str_join (port_token (proxy_port ex_px) (CHR ''<''))
        [''<a>http://192.168.1.10:8080/onvif/</a>'']"
    unfolding px ex_tokens ex_payload_def by simp
  have a2: "camera_ip ex_px \<noteq> [] \<and>
    clean_parts (camera_ip ex_px) [''<a>http://'', '':8080/onvif/</a>''] \<and>
    clean_parts (port_token (camera_port ex_px) (CHR ''/''))
      [''<a>http://127.0.0.1'', ''onvif/</a>''] \<and>
    clean_parts (port_token (camera_port ex_px) (CHR ''<''))
      [''<a>http://127.0.0.1:8000/onvif/</a>''] \<and>
    ''<a>http://192.168.1.10:8080/onvif/</a>'' =
      str_join (camera_ip ex_px) [''<a>http://'', '':8080/onvif/</a>''] \<and>
    str_join (proxy_host ex_px) [''<a>http://'', '':8080/onvif/</a>''] =
      str_join (port_token (camera_port ex_px) (CHR ''/''))
        [''<a>http://127.0.0.1'', ''onvif/</a>''] \<and>
    str_join (port_token (proxy_port ex_px) (CHR ''/''))
        [''<a>http://127.0.0.1'', ''onvif/</a>''] =
      str_join (port_token (camera_port ex_px) (CHR ''<''))
        [''<a>http://127.0.0.1:8000/onvif/</a>'']"
    unfolding px ex_tokens by simp
  have a3: "''127.0.0.1'' \<noteq> []" by simp
  have a4: "proxy_host ex_px_same \<noteq> [] \<and> camera_ip ex_px_same \<noteq> [] \<and>
    clean_parts (proxy_host ex_px_same) [''<a>http://'', '':8000/onvif/</a>''] \<and>
    clean_parts (camera_ip ex_px_same) [''<a>http://'', '':8000/onvif/</a>''] \<and>
    inert (port_token (proxy_port ex_px_same) (CHR ''/''))
          (port_token (camera_port ex_px_same) (CHR ''/''))
          (str_join (camera_ip ex_px_same) [''<a>http://'', '':8000/onvif/</a>'']) \<and>
    inert (port_token (proxy_port ex_px_same) (CHR ''<''))
          (port_token (camera_port ex_px_same) (CHR ''<''))
          (str_join (camera_ip ex_px_same) [''<a>http://'', '':8000/onvif/</a>'']) \<and>
    inert (port_token (camera_port ex_px_same) (CHR ''/''))
          (port_token (proxy_port ex_px_same) (CHR ''/''))
          (str_join (proxy_host ex_px_same) [''<a>http://'', '':8000/onvif/</a>'']) \<and>
    inert (port_token (camera_port ex_px_same) (CHR ''<''))
          (port_token (proxy_port ex_px_same) (CHR ''<''))
          (str_join (proxy_host ex_px_same) [''<a>http://'', '':8000/onvif/</a>''])"
    unfolding ps inert_def by simp
  have a5: "inert (proxy_host ex_px_same) (camera_ip ex_px_same)
          ''<a>http://192.168.1.10:8000/onvif/</a>'' \<and>
    inert (port_token (proxy_port ex_px_same) (CHR ''/''))
          (port_token (camera_port ex_px_same) (CHR ''/''))
          ''<a>http://192.168.1.10:8000/onvif/</a>'' \<and>
    inert (port_token (proxy_port ex_px_same) (CHR ''<''))
          (port_token (camera_port ex_px_same) (CHR ''<''))
          ''<a>http://192.168.1.10:8000/onvif/</a>''"
    unfolding ps inert_def by simp
  have a6: "inert (camera_ip ex_px) (proxy_host ex_px) ex_payload \<and>
    inert (port_token (camera_port ex_px) (CHR ''/'')) (port_token (proxy_port ex_px) (CHR ''/''))
          ex_payload \<and>
    inert (port_token (camera_port ex_px) (CHR ''<'')) (port_token (proxy_port ex_px) (CHR ''<''))
          ex_payload"
    unfolding px ex_tokens inert_def ex_payload_def by simp
  have j1: "str_join (port_token (camera_port ex_px) (CHR ''<''))
              [''<a>http://192.168.1.10:8080/onvif/</a>''] =
            ''<a>http://192.168.1.10:8080/onvif/</a>''"
    by simp
  have j2: "str_join (port_token (proxy_port ex_px) (CHR ''<''))
              [''<a>http://127.0.0.1:8000/onvif/</a>''] = ex_payload"
    by (simp add: ex_payload_def)
  have j3: "str_join (proxy_host ex_px_same) [''<a>http://'', '':8000/onvif/</a>''] = ex_payload"
    unfolding ps by (simp add: ex_payload_def)
  have j4: "str_join (camera_ip ex_px_same) [''<a>http://'', '':8000/onvif/</a>''] =
            ''<a>http://192.168.1.10:8000/onvif/</a>''"
    unfolding ps by simp
  have sp: "py_split ''127.0.0.1'' ex_payload = [''<a>http://'', '':8000/onvif/</a>'']"
    unfolding ex_payload_def by code_simp
  from t1 a1 have c1: "rewrite_request ex_px ex_payload =
      str_join (port_token (camera_port ex_px) (CHR ''<''))
        [''<a>http://192.168.1.10:8080/onvif/</a>'']"
    by blast
  from t1 a2 have c2: "rewrite_response ex_px ''<a>http://192.168.1.10:8080/onvif/</a>'' =
      str_join (port_token (proxy_port ex_px) (CHR ''<''))
        [''<a>http://127.0.0.1:8000/onvif/</a>'']"
    by blast
  from t1 a3 have c3: "clean_parts ''127.0.0.1'' (py_split ''127.0.0.1'' ex_payload) \<and>
      str_join ''127.0.0.1'' (py_split ''127.0.0.1'' ex_payload) = ex_payload"
    by blast
  from t2 a4 have c4:
    "rewrite_request ex_px_same
       (str_join (proxy_host ex_px_same) [''<a>http://'', '':8000/onvif/</a>'']) =
     str_join (camera_ip ex_px_same) [''<a>http://'', '':8000/onvif/</a>''] \<and>
     rewrite_response ex_px_same (rewrite_request ex_px_same
       (str_join (proxy_host ex_px_same) [''<a>http://'', '':8000/onvif/</a>''])) =
     str_join (proxy_host ex_px_same) [''<a>http://'', '':8000/onvif/</a>'']"
    by blast
  from t2 a5 have c5: "rewrite_request ex_px_same ''<a>http://192.168.1.10:8000/onvif/</a>'' =
      ''<a>http://192.168.1.10:8000/onvif/</a>''"
    by blast
  from t1 a6 have c6: "rewrite_response ex_px ex_payload = ex_payload"
    by blast
  show ?thesis
    using c1 [unfolded j1] c2 [unfolded j2] c3 c4 [unfolded j3 j4] c5 c6 sp by blast
qed


section \<open>Request router: a body that does not parse\<close>

lemma ex_garbage_unchanged: "rewrite_request ex_px ''<Envelope'' = ''<Envelope''"
  by (simp add: rewrite_request_def ex_px_def py_replace_def ex_str_8000 ex_str_8080)

lemma ex_ok_unchanged: "rewrite_response ex_px ''<ok/>'' = ''<ok/>''"
  by (simp add: rewrite_response_def ex_px_def py_replace_def ex_str_8000 ex_str_8080)

lemma ex_device_url:
  "service_url ex_px ''device_service'' = ''http://192.168.1.10:8080/onvif/device_service''"
  by (simp add: service_url_def service_urls_def camera_base_def ex_px_def ex_str_8080)

text \<open>
  Claim C1, as the specification states it, fails on the code: no fault is built for a
  body that does not parse. The router logs a warning and forwards the body; with a
  camera that answers 200, the client receives that answer, and one request was posted
  to the camera.
\<close>

theorem malformed_request_not_rejected:
  "xml_parse ex_env ''<Envelope'' = None \<and>
   reply (handle_onvif_request ex_env ex_px idle_tracker ''device_service'' ''<Envelope'') =
     (''<ok/>'', 200) \<and>
   http_posts (handle_onvif_request ex_env ex_px idle_tracker ''device_service'' ''<Envelope'') =
     [(''http://192.168.1.10:8080/onvif/device_service'', ''<Envelope'')]"
proof -
  have p: "xml_parse ex_env ''<Envelope'' = None" by (simp add: ex_env_def)
  have n: "normalize_service ''device_service'' = ''device_service''"
    by (simp add: normalize_service_def endswith_def suffix_to_prefix)
  have h: "http ex_env = (\<lambda>url body. Responded ''<ok/>'' 200)" by (simp add: ex_env_def)
  have f: "forward_request ex_px (http ex_env) ''device_service'' ''<Envelope'' = (''<ok/>'', 200)"
    by (simp add: forward_request_def h ex_ok_unchanged)
  have r: "handle_onvif_request ex_env ex_px idle_tracker ''device_service'' ''<Envelope'' =
           \<lparr>reply = (''<ok/>'', 200),
            route_tracker = idle_tracker, route_camera_calls = [], route_follow_ups = [],
            http_posts = [(''http://192.168.1.10:8080/onvif/device_service'', ''<Envelope'')]\<rparr>"
    using p
    by (simp add: handle_onvif_request_def parse_soap_request_def truthy_str_def proxied_def
                  Let_def n f ex_device_url ex_garbage_unchanged)
  show ?thesis by (simp add: p r)
qed

text \<open>
  Claim C1, amended. When the body does not parse, the router does not call the
  interceptor and leaves the tracker alone: it forwards the body, with the addresses
  rewritten, to the URL of the normalised service, and answers with what the forwarder
  returns (the camera's rewritten response and status, or the forwarder's own fault with
  status 500), without splicing.
\<close>

theorem malformed_request_forwarded:
  assumes "xml_parse e soap_body = None"
  shows "handle_onvif_request e px st service soap_body =
           \<lparr>reply = forward_request px (http e) (normalize_service service) soap_body,
            route_tracker = st, route_camera_calls = [], route_follow_ups = [],
            http_posts = [(service_url px (normalize_service service),
                           rewrite_request px soap_body)]\<rparr>"
  using assms
  by (simp add: handle_onvif_request_def parse_soap_request_def truthy_str_def proxied_def
                Let_def split: prod.splits)

theorem malformed_request_forwarded_witness:
  "handle_onvif_request ex_env ex_px idle_tracker ''ptz_service'' ''<Envelope'' =
     \<lparr>reply = (''<ok/>'', 200),
      route_tracker = idle_tracker, route_camera_calls = [], route_follow_ups = [],
      http_posts = [(''http://192.168.1.10:8080/onvif/ptz_service'', ''<Envelope'')]\<rparr>"
proof -
  have p: "xml_parse ex_env ''<Envelope'' = None" by (simp add: ex_env_def)
  have n: "normalize_service ''ptz_service'' = ''ptz_service''"
    by (simp add: normalize_service_def endswith_def suffix_to_prefix)
  have h: "http ex_env = (\<lambda>url body. Responded ''<ok/>'' 200)" by (simp add: ex_env_def)
  have f: "forward_request ex_px (http ex_env) ''ptz_service'' ''<Envelope'' = (''<ok/>'', 200)"
    by (simp add: forward_request_def h ex_ok_unchanged)
  have u: "service_url ex_px ''ptz_service'' = ''http://192.168.1.10:8080/onvif/ptz_service''"
    by (simp add: service_url_def service_urls_def camera_base_def ex_px_def ex_str_8080)
  from malformed_request_forwarded [OF p, of ex_px idle_tracker "''ptz_service''"]
  show ?thesis by (simp only: n f u ex_garbage_unchanged)
qed


end
